theory Spec2Isabelle
  imports Main
begin

section \<open>Strings as the validator uses them\<close>

text \<open>
  JavaScript strings are modelled as \<open>string\<close> (a list of 8-bit characters). Case
  conversion, digits and white space are modelled on ASCII, which covers every
  literal of \<open>validator.ts\<close> and \<open>analyzer.ts\<close>.
\<close>

definition isUpperChar :: "char \<Rightarrow> bool" where
  "isUpperChar c = (65 \<le> (of_char c :: nat) \<and> (of_char c :: nat) \<le> 90)"

definition isLowerChar :: "char \<Rightarrow> bool" where
  "isLowerChar c = (97 \<le> (of_char c :: nat) \<and> (of_char c :: nat) \<le> 122)"

definition isDigitChar :: "char \<Rightarrow> bool" where
  "isDigitChar c = (48 \<le> (of_char c :: nat) \<and> (of_char c :: nat) \<le> 57)"

definition isSpaceChar :: "char \<Rightarrow> bool" where
  "isSpaceChar c = ((of_char c :: nat) = 32 \<or> (9 \<le> (of_char c :: nat) \<and> (of_char c :: nat) \<le> 13))"

definition toLowerChar :: "char \<Rightarrow> char" where
  "toLowerChar c = (if isUpperChar c then char_of ((of_char c :: nat) + 32) else c)"

definition toUpperChar :: "char \<Rightarrow> char" where
  "toUpperChar c = (if isLowerChar c then char_of ((of_char c :: nat) - 32) else c)"

definition toLowerCase :: "string \<Rightarrow> string" where
  "toLowerCase s = map toLowerChar s"

text \<open>\<open>s.startsWith(p)\<close> and \<open>s.includes(p)\<close>.\<close>

fun startsWith :: "string \<Rightarrow> string \<Rightarrow> bool" where
  "startsWith s [] = True"
| "startsWith [] (p # ps) = False"
| "startsWith (c # cs) (p # ps) = (c = p \<and> startsWith cs ps)"

fun strIncludes :: "string \<Rightarrow> string \<Rightarrow> bool" where
  "strIncludes [] p = (p = [])"
| "strIncludes (c # cs) p = (startsWith (c # cs) p \<or> strIncludes cs p)"

text \<open>\<open>s.trim()\<close>.\<close>

definition trim :: "string \<Rightarrow> string" where
  "trim s = rev (dropWhile isSpaceChar (rev (dropWhile isSpaceChar s)))"

text \<open>The last element of \<open>s.split('.')\<close>: what follows the last dot, or all of \<open>s\<close>.\<close>

definition lastSegment :: "string \<Rightarrow> string" where
  "lastSegment s = rev (takeWhile (\<lambda>c. c \<noteq> CHR ''.'') (rev s))"

text \<open>Decimal rendering of a number inside a template literal.\<close>

fun show_nat :: "nat \<Rightarrow> string" where
  "show_nat n = (if n < 10 then [char_of (48 + n)]
                 else show_nat (n div 10) @ [char_of (48 + n mod 10)])"

declare show_nat.simps [simp del]

definition show_int :: "int \<Rightarrow> string" where
  "show_int i = (if i < 0 then CHR ''-'' # show_nat (nat (- i)) else show_nat (nat i))"

text \<open>The test \<open>/^(Node|node)\d+$/i\<close>: the letters of "node" in any case, then one or
  more digits, and nothing else.\<close>

definition isGenericName :: "string \<Rightarrow> bool" where
  "isGenericName s = (toLowerCase (take 4 s) = ''node'' \<and> drop 4 s \<noteq> [] \<and>
                      list_all isDigitChar (drop 4 s))"

section \<open>The workflow document\<close>

text \<open>
  A parameter bag is arbitrary JSON. Numbers are modelled as integers.
\<close>

datatype jvalue =
    JNull
  | JBool bool
  | JNum int
  | JStr string
  | JArr "jvalue list"
  | JObj "(string \<times> jvalue) list"

text \<open>
  A property that is absent (\<open>undefined\<close>) is \<open>None\<close>. \<open>truthy\<close> is JavaScript's
  coercion to a boolean, \<open>typeofObject\<close> is \<open>typeof v === 'object'\<close> (true of
  \<open>null\<close> and of arrays).
\<close>

fun truthy :: "jvalue option \<Rightarrow> bool" where
  "truthy None = False"
| "truthy (Some JNull) = False"
| "truthy (Some (JBool b)) = b"
| "truthy (Some (JNum n)) = (n \<noteq> 0)"
| "truthy (Some (JStr s)) = (s \<noteq> [])"
| "truthy (Some (JArr xs)) = True"
| "truthy (Some (JObj kvs)) = True"

fun typeofObject :: "jvalue option \<Rightarrow> bool" where
  "typeofObject (Some JNull) = True"
| "typeofObject (Some (JArr xs)) = True"
| "typeofObject (Some (JObj kvs)) = True"
| "typeofObject v = False"

fun truthyS :: "string option \<Rightarrow> bool" where
  "truthyS None = False"
| "truthyS (Some s) = (s \<noteq> [])"

text \<open>\<open>x || d\<close> on an optional string, and the property key an optional string
  coerces to.\<close>

fun orElse :: "string option \<Rightarrow> string \<Rightarrow> string" where
  "orElse None d = d"
| "orElse (Some s) d = (if s = [] then d else s)"

fun keyOf :: "string option \<Rightarrow> string" where
  "keyOf None = ''undefined''"
| "keyOf (Some s) = s"

text \<open>
  JavaScript objects keep their string keys in insertion order; they are modelled as
  association lists. \<open>objSet\<close> is \<open>o[k] = v\<close> (in place when the key exists, appended
  otherwise), \<open>objDelete\<close> is \<open>delete o[k]\<close>, \<open>map_of\<close> is \<open>o[k]\<close>. (Keys that are
  canonical array indices, which JavaScript enumerates first, are not treated
  specially.)
\<close>

fun objSet :: "string \<Rightarrow> 'v \<Rightarrow> (string \<times> 'v) list \<Rightarrow> (string \<times> 'v) list" where
  "objSet k v [] = [(k, v)]"
| "objSet k v ((k', v') # rest) = (if k' = k then (k, v) # rest else (k', v') # objSet k v rest)"

definition objDelete :: "string \<Rightarrow> (string \<times> 'v) list \<Rightarrow> (string \<times> 'v) list" where
  "objDelete k kvs = filter (\<lambda>kv. fst kv \<noteq> k) kvs"

text \<open>
  An edge record \<open>{node, type, index}\<close>; the outputs of one port kind are a list of
  slots, each a list of edges; a step's connections map a port kind to its outputs;
  the adjacency maps a source step's name to its connections. An edge need not have
  the property \<open>index\<close> (\<open>normalizeAIToolIndexes\<close> tests \<open>'index' in conn\<close>): \<open>cindex\<close> is
  \<open>None\<close> then, and a number otherwise. \<open>indexOrZero\<close> is \<open>conn.index || 0\<close>, and
  \<open>showIndex\<close> is the index inside a template literal.
\<close>

record conn =
  cnode :: string
  ctype :: string
  cindex :: "int option"

definition indexOrZero :: "conn \<Rightarrow> int" where
  "indexOrZero c = (case cindex c of None \<Rightarrow> 0 | Some i \<Rightarrow> i)"

definition showIndex :: "conn \<Rightarrow> string" where
  "showIndex c = (case cindex c of None \<Rightarrow> ''undefined'' | Some i \<Rightarrow> show_int i)"

type_synonym outputs = "conn list list"
type_synonym nodeConns = "(string \<times> outputs) list"
type_synonym connections = "(string \<times> nodeConns) list"

record node =
  nid :: "string option"
  name :: "string option"
  ntype :: "string option"
  position :: "int list option"
  parameters :: "jvalue option"
  credentials :: "jvalue option"

record workflow =
  wname :: "string option"
  nodes :: "node list"
  connections :: "connections option"

text \<open>All edges of an adjacency, as (source, port kind, edge) triples in document order.\<close>

definition portEdges :: "nodeConns \<Rightarrow> (string \<times> conn) list" where
  "portEdges ports = concat (map (\<lambda>(k, outs). map (\<lambda>c. (k, c)) (concat outs)) ports)"

definition allEdges :: "connections \<Rightarrow> (string \<times> string \<times> conn) list" where
  "allEdges cs = concat (map (\<lambda>(src, ports). map (\<lambda>kc. (src, kc)) (portEdges ports)) cs)"

section \<open>Step kinds and names (validator.ts, lines 84 to 353)\<close>

definition nameTable :: "(string \<times> string) list" where
  "nameTable =
    [(''manualTrigger'', ''Manual Trigger''), (''webhook'', ''Webhook Trigger''),
     (''schedule'', ''Schedule Trigger''), (''googleSheets'', ''Google Sheets''),
     (''gmail'', ''Gmail''), (''slack'', ''Slack''), (''httpRequest'', ''HTTP Request''),
     (''set'', ''Set Data''), (''code'', ''Code Execute''), (''if'', ''Condition Check''),
     (''function'', ''Function''), (''merge'', ''Merge Data''), (''split'', ''Split Data''),
     (''filter'', ''Filter Data''), (''transform'', ''Transform Data''),
     (''email'', ''Send Email''), (''file'', ''File Operation''),
     (''database'', ''Database Query''), (''lmChatOpenAi'', ''OpenAI Chat Model''),
     (''lmChatAnthropic'', ''Anthropic Chat Model''), (''agent'', ''AI Agent''),
     (''memory'', ''Chat Memory''), (''tool'', ''AI Tool'')]"

text \<open>The chain of \<open>if (nodeType.includes(k)) return v\<close>: the first entry that matches.\<close>

fun firstIncluded :: "(string \<times> string) list \<Rightarrow> string \<Rightarrow> string option" where
  "firstIncluded [] t = None"
| "firstIncluded ((k, v) # rest) t = (if strIncludes t k then Some v else firstIncluded rest t)"

text \<open>
  \<open>baseType.replace(/([A-Z])/g, ' $1').replace(/^./, toUpperCase).trim()\<close>, where
  \<open>baseType\<close> is the last segment of the type, or \<open>'Node'\<close> when that is empty. The
  pattern \<open>/^./\<close> does not match a line terminator.
\<close>

definition spaceCapitals :: "string \<Rightarrow> string" where
  "spaceCapitals s = concat (map (\<lambda>c. if isUpperChar c then [CHR '' '', c] else [c]) s)"

fun upperFirst :: "string \<Rightarrow> string" where
  "upperFirst [] = []"
| "upperFirst (c # cs) =
     (if (of_char c :: nat) = 10 \<or> (of_char c :: nat) = 13 then c # cs else toUpperChar c # cs)"

definition titleCase :: "string \<Rightarrow> string" where
  "titleCase t =
     (let seg = lastSegment t; baseType = (if seg = [] then ''Node'' else seg)
      in trim (upperFirst (spaceCapitals baseType)))"

definition generateDescriptiveName :: "node \<Rightarrow> nat \<Rightarrow> string" where
  "generateDescriptiveName n i =
     (let nodeType = orElse (ntype n) [] in
      case firstIncluded nameTable nodeType of
        Some v \<Rightarrow> v
      | None \<Rightarrow> (let t = titleCase nodeType
                 in if t = [] then ''Process Step '' @ show_nat (i + 1) else t))"

definition getSuggestedNodeName :: "string option \<Rightarrow> string" where
  "getSuggestedNodeName nodeType =
     (if \<not> truthyS nodeType then ''Node''
      else case firstIncluded nameTable (keyOf nodeType) of
             Some v \<Rightarrow> v
           | None \<Rightarrow> titleCase (keyOf nodeType))"

definition isTriggerNode :: "string \<Rightarrow> bool" where
  "isTriggerNode nodeType =
     (let t = toLowerCase nodeType
      in strIncludes t ''trigger'' \<or> strIncludes t ''webhook'' \<or> strIncludes t ''manual'' \<or>
         strIncludes t ''schedule'' \<or> strIncludes t ''cron'')"

definition isToolNode :: "string \<Rightarrow> bool" where
  "isToolNode nodeType = (strIncludes nodeType ''tool'' \<or> strIncludes nodeType ''Tool'')"

definition isLangChainTool :: "string \<Rightarrow> bool" where
  "isLangChainTool nodeType = startsWith nodeType ''@n8n/n8n-nodes-langchain.tool''"

definition isServiceTool :: "string \<Rightarrow> bool" where
  "isServiceTool nodeType =
     (startsWith nodeType ''n8n-nodes-base.'' \<and> strIncludes (toLowerCase nodeType) ''tool'')"

definition isLanguageModelNode :: "string \<Rightarrow> bool" where
  "isLanguageModelNode nodeType = (strIncludes nodeType ''lmChat'' \<or> strIncludes nodeType ''ChatModel'')"

definition isChatModelNode :: "string \<Rightarrow> bool" where
  "isChatModelNode nodeType = strIncludes nodeType ''lmChat''"

definition isMemoryNode :: "string \<Rightarrow> bool" where
  "isMemoryNode nodeType = (strIncludes nodeType ''memory'' \<or> strIncludes nodeType ''Memory'')"

definition isAgentNode :: "string \<Rightarrow> bool" where
  "isAgentNode nodeType = (strIncludes nodeType ''agent'' \<or> strIncludes nodeType ''Agent'')"

definition isAIAgentNode :: "string \<Rightarrow> bool" where
  "isAIAgentNode nodeType = (nodeType = ''@n8n/n8n-nodes-langchain.agent'')"

definition hasAIAgents :: "workflow \<Rightarrow> bool" where
  "hasAIAgents w = list_ex (\<lambda>n. isAgentNode (orElse (ntype n) [])) (nodes w)"

section \<open>Messages\<close>

text \<open>
  Every message the validator builds from a template is a constructor that carries
  the interpolated values, in the template's order. \<open>Detail f\<close> is the indented
  arrow line that repeats a pass's own message \<open>f\<close>; \<open>Summary k n\<close> is the headline
  \<open>[FIX-k]\<close> of pass \<open>k\<close> with the count it prints (0 where it prints none).
\<close>

datatype place = BelowLeft | BelowRight | BelowCenter

datatype fixMsg =
    AddedWorkflowName
  | AddedConnectionsObject
  | AddedNodeType string
  | FixedTypeFormat string string
  | AddedDescriptiveName string
  | RenamedGeneric string string
  | ResolvedDuplicateName string string
  | AddedId string
  | SetDefaultPosition string
  | AddedEmptyParameters string
  | ReplacedEmptyParameter string string
  | AddedPlaceholderCredentials string
  | ConnectedTrigger string string
  | CreatedSequentialConnections "string list"
  | RemovedNonexistentSource string
  | RemovedConnectionToNonexistent string string
  | RemovedDuplicateConnection string string
  | Summary nat nat
  | Detail fixMsg
  | ReplacedDeprecated string string string
  | ConvertedToTool string string string
  | RemovedHardcodedModel string string
  | ReversedBackwards string string
  | Repositioned place "string option"
  | RenamedGenericTo "string option" string
  | FixedToolIndex string string int
  | RemovedOverlinking string string string
  | RebuiltToolConnection "string option" "string option"
  | ReconnectedFromAgent "string option" "string option"
  | ReconnectedFrom "string option" "string option"

text \<open>
  Errors and warnings share one type, so that "reported as a warning, not as an
  error" is a statement about two lists of the same type. \<open>AtIndex i\<close> and
  \<open>Named s\<close> are the two renderings of \<open>node.name || `at index ${i}`\<close>.
\<close>

datatype nodeRef = Named string | AtIndex nat

datatype issue =
    InvalidFormat
  | NodeNotObject nat
  | MalformedParameters nodeRef
  | MissingNameField nat
  | MissingTypeField nat
  | MissingPositionField nodeRef
  | MalformedBanner nat
  | SchemaIssue string
  | MustHaveNodesArray
  | MustHaveOneNode
  | DuplicateNames
  | NodeMissingName
  | NodeMissingType string
  | InvalidTypeFormat "string option" string
  | InvalidPosition "string option"
  | MissingParameters "string option"
  | GenericName string
  | DuplicateNamesAfterFix
  | Thrown string
  | SourceNotFound string
  | TargetNotFound string string
  | HangingTrigger "string option"
  | HangingTool "string option"
  | HangingLLM "string option"
  | HangingMemory "string option"
  | HangingNode "string option"
  | DuplicateConnection string nat
  | AgentMissingModel "string option"
  | AgentInvalidModel "string option" "string option"
  | AgentMissingMemory "string option"
  | AgentInvalidMemory "string option" "string option"
  | AgentNoTools "string option"
  | AsWarning issue

text \<open>The one exception the passes can raise on a document of this shape.\<close>

datatype exn = TypeError

section \<open>The repair passes (validator.ts, lines 360 to 1209)\<close>

text \<open>
  A pass of the source mutates the workflow it is given and returns its counters
  and messages; the model returns the workflow after the pass together with them.
  A count that the source keeps beside the messages is returned as well.
\<close>

text \<open>
  \<open>nodeTypeMap\<close>: the \<open>Map\<close> from name to type filled from the steps whose name and
  type are both truthy; a later step of the same name replaces an earlier one.
\<close>

definition nodeTypeMap :: "node list \<Rightarrow> string \<Rightarrow> string option" where
  "nodeTypeMap ns =
     fold (\<lambda>n m. if truthyS (name n) \<and> truthyS (ntype n)
                  then m(keyOf (name n) := Some (keyOf (ntype n))) else m)
          ns (\<lambda>k. None)"

definition isAllowedToolNode :: "string \<Rightarrow> bool" where
  "isAllowedToolNode t = (isLangChainTool t \<or> isServiceTool t)"

subsection \<open>removeInvalidAIToolConnections\<close>

definition invalidToolEntry :: "node list \<Rightarrow> string \<times> nodeConns \<Rightarrow> (string \<times> nodeConns) \<times> nat" where
  "invalidToolEntry ns e =
     (case nodeTypeMap ns (fst e) of
        None \<Rightarrow> (e, 0)
      | Some sourceType \<Rightarrow>
          (if \<not> isAllowedToolNode sourceType \<and> map_of (snd e) ''ai_tool'' \<noteq> None
           then ((fst e, objDelete ''ai_tool'' (snd e)), 1)
           else (e, 0)))"

definition removeInvalidAIToolConnections :: "workflow \<Rightarrow> workflow \<times> nat" where
  "removeInvalidAIToolConnections w =
     (case connections w of
        None \<Rightarrow> (w, 0)
      | Some cs \<Rightarrow>
          (let rs = map (invalidToolEntry (nodes w)) cs
           in (w\<lparr>connections := Some (map fst rs)\<rparr>, sum_list (map snd rs))))"

subsection \<open>convertRegularNodesToTools\<close>

definition toolMappings :: "(string \<times> string) list" where
  "toolMappings =
    [(''n8n-nodes-base.gmail'', ''n8n-nodes-base.gmailTool''),
     (''n8n-nodes-base.googleSheets'', ''n8n-nodes-base.googleSheetsTool''),
     (''n8n-nodes-base.slack'', ''n8n-nodes-base.slackTool''),
     (''n8n-nodes-base.notion'', ''n8n-nodes-base.notionTool''),
     (''n8n-nodes-base.airtable'', ''n8n-nodes-base.airtableTool''),
     (''n8n-nodes-base.github'', ''n8n-nodes-base.githubTool''),
     (''n8n-nodes-base.googleDrive'', ''n8n-nodes-base.googleDriveTool''),
     (''n8n-nodes-base.hubspot'', ''n8n-nodes-base.hubspotTool''),
     (''n8n-nodes-base.salesforce'', ''n8n-nodes-base.salesforceTool''),
     (''n8n-nodes-base.jira'', ''n8n-nodes-base.jiraTool''),
     (''n8n-nodes-base.trello'', ''n8n-nodes-base.trelloTool''),
     (''n8n-nodes-base.asana'', ''n8n-nodes-base.asanaTool''),
     (''n8n-nodes-base.linear'', ''n8n-nodes-base.linearTool''),
     (''n8n-nodes-base.discord'', ''n8n-nodes-base.discordTool''),
     (''n8n-nodes-base.telegram'', ''n8n-nodes-base.telegramTool''),
     (''n8n-nodes-base.httpRequest'', ''n8n-nodes-base.httpRequestTool'')]"

definition getToolVariant :: "string \<Rightarrow> string option" where
  "getToolVariant nodeType = map_of toolMappings nodeType"

definition isAIConnType :: "string \<Rightarrow> bool" where
  "isAIConnType t = (t = ''ai_tool'' \<or> t = ''ai_languageModel'' \<or> t = ''ai_memory'' \<or>
                     t = ''ai_outputParser'')"

definition isConnectedOnlyToAIInfrastructure :: "string \<Rightarrow> connections option \<Rightarrow> bool" where
  "isConnectedOnlyToAIInfrastructure nodeName conns =
     (case conns of
        None \<Rightarrow> True
      | Some cs \<Rightarrow>
          (let outgoing = filter (\<lambda>e. fst e = nodeName) (allEdges cs);
               incoming = filter (\<lambda>e. cnode (snd (snd e)) = nodeName) (allEdges cs);
               hasConnections = (outgoing \<noteq> [] \<or> incoming \<noteq> []);
               allConnectionsAreAI = list_all (\<lambda>e. isAIConnType (ctype (snd (snd e)))) (outgoing @ incoming)
           in \<not> hasConnections \<or> allConnectionsAreAI))"

definition convertNode :: "connections option \<Rightarrow> node \<Rightarrow> node \<times> fixMsg list" where
  "convertNode conns n =
     (if \<not> truthyS (ntype n) \<or> \<not> truthyS (name n) then (n, [])
      else if isToolNode (keyOf (ntype n)) then (n, [])
      else case getToolVariant (keyOf (ntype n)) of
             None \<Rightarrow> (n, [])
           | Some toolVariant \<Rightarrow>
               (if isConnectedOnlyToAIInfrastructure (keyOf (name n)) conns
                then (n\<lparr>ntype := Some toolVariant\<rparr>,
                      [ConvertedToTool (keyOf (name n)) (keyOf (ntype n)) toolVariant])
                else (n, [])))"

definition convertRegularNodesToTools :: "workflow \<Rightarrow> workflow \<times> nat \<times> fixMsg list" where
  "convertRegularNodesToTools w =
     (if \<not> hasAIAgents w then (w, 0, [])
      else let rs = map (convertNode (connections w)) (nodes w);
               fixes = concat (map snd rs)
           in (w\<lparr>nodes := map fst rs\<rparr>, length fixes, fixes))"

subsection \<open>removeHardcodedModelParameters\<close>

definition hardcodedModelPatterns :: "string list" where
  "hardcodedModelPatterns =
    [''gpt-4'', ''gpt-3.5'', ''gpt-4-turbo'', ''gpt-4o'',
     ''claude-3'', ''claude-2'', ''claude-instant'',
     ''claude-3-5-sonnet'', ''claude-3-opus'', ''claude-3-sonnet'', ''claude-3-haiku'',
     ''gemini'', ''palm'',
     ''llama'', ''mistral'', ''mixtral'']"

definition matchesHardcoded :: "string \<Rightarrow> bool" where
  "matchesHardcoded v =
     list_ex (\<lambda>p. strIncludes (toLowerCase v) (toLowerCase p)) hardcodedModelPatterns"

text \<open>
  The block for one key: when the key is present, its value is a string and the
  string matches a pattern, the key is deleted.
\<close>

fun isHardcodedModel :: "jvalue option \<Rightarrow> bool" where
  "isHardcodedModel (Some (JStr v)) = matchesHardcoded v"
| "isHardcodedModel v = False"

definition stripModelKey :: "string \<Rightarrow> (string \<times> jvalue) list \<Rightarrow> (string \<times> jvalue) list \<times> bool" where
  "stripModelKey k ps =
     (if isHardcodedModel (map_of ps k) then (objDelete k ps, True) else (ps, False))"

definition ensureOptions :: "(string \<times> jvalue) list \<Rightarrow> (string \<times> jvalue) list" where
  "ensureOptions ps = (if truthy (map_of ps ''options'') then ps else objSet ''options'' (JObj []) ps)"

definition hardcodedNode :: "node \<Rightarrow> node \<times> nat \<times> fixMsg list" where
  "hardcodedNode n =
     (if \<not> truthyS (ntype n) \<or> \<not> truthyS (name n) then (n, 0, [])
      else if \<not> isLanguageModelNode (keyOf (ntype n)) then (n, 0, [])
      else case parameters n of
             Some (JObj ps) \<Rightarrow>
               (let r1 = stripModelKey ''model'' ps;
                    r2 = stripModelKey ''modelName'' (fst r1);
                    removed = (if snd r1 then 1 else 0) + (if snd r2 then 1 else (0::nat))
                in if snd r1 \<or> snd r2
                   then (n\<lparr>parameters := Some (JObj (ensureOptions (fst r2)))\<rparr>, removed,
                         [RemovedHardcodedModel (keyOf (name n)) (keyOf (ntype n))])
                   else (n, 0, []))
           | _ \<Rightarrow> (n, 0, []))"

definition removeHardcodedModelParameters :: "workflow \<Rightarrow> workflow \<times> nat \<times> fixMsg list" where
  "removeHardcodedModelParameters w =
     (let rs = map hardcodedNode (nodes w)
      in (w\<lparr>nodes := map fst rs\<rparr>, sum_list (map (\<lambda>r. fst (snd r)) rs),
          concat (map (\<lambda>r. snd (snd r)) rs)))"

subsection \<open>fixBackwardsToolConnections\<close>

text \<open>The edges collected first: agent name, tool name and \<open>conn.index || 0\<close>.\<close>

definition backwardsOf :: "node list \<Rightarrow> string \<times> nodeConns \<Rightarrow> (string \<times> string \<times> int) list" where
  "backwardsOf ns e =
     (case nodeTypeMap ns (fst e) of
        None \<Rightarrow> []
      | Some sourceType \<Rightarrow>
          (if \<not> isAgentNode sourceType then []
           else map (\<lambda>kc. (fst e, cnode (snd kc), indexOrZero (snd kc)))
                  (filter (\<lambda>kc. fst kc = ''ai_tool'' \<and>
                                 (case nodeTypeMap ns (cnode (snd kc)) of
                                    None \<Rightarrow> False | Some targetType \<Rightarrow> isToolNode targetType))
                     (portEdges (snd e)))))"

text \<open>
  Reversing one collected edge: the agent's \<open>ai_tool\<close> outputs lose every edge to
  the tool, then their empty slots, then the key itself when nothing is left; the
  tool gets an entry and an \<open>ai_tool\<close> key when it has none; the new edge is pushed
  on slot 0 unless slot 0 already holds an edge to the agent. An \<open>ai_tool\<close> key that
  holds no slot makes \<open>ai_tool[0].find\<close> raise.
\<close>

definition removeBackwards :: "string \<Rightarrow> string \<Rightarrow> connections \<Rightarrow> connections" where
  "removeBackwards agentName toolName cs =
     (case map_of cs agentName of
        None \<Rightarrow> cs
      | Some ports \<Rightarrow>
          (case map_of ports ''ai_tool'' of
             None \<Rightarrow> cs
           | Some outs \<Rightarrow>
               (let outs' = filter (\<lambda>arr. arr \<noteq> [])
                              (map (filter (\<lambda>c. cnode c \<noteq> toolName)) outs)
                in objSet agentName
                     (if outs' = [] then objDelete ''ai_tool'' ports
                      else objSet ''ai_tool'' outs' ports) cs)))"

definition reverseOne :: "string \<times> string \<times> int \<Rightarrow> connections \<Rightarrow> exn + (connections \<times> fixMsg list)" where
  "reverseOne b cs0 =
     (let agentName = fst b; toolName = fst (snd b); index = snd (snd b);
          cs1 = removeBackwards agentName toolName cs0;
          ports0 = (case map_of cs1 toolName of None \<Rightarrow> [] | Some ports \<Rightarrow> ports);
          ports1 = (case map_of ports0 ''ai_tool'' of
                      None \<Rightarrow> objSet ''ai_tool'' [[]] ports0 | Some outs \<Rightarrow> ports0)
      in case map_of ports1 ''ai_tool'' of
           None \<Rightarrow> Inl TypeError
         | Some [] \<Rightarrow> Inl TypeError
         | Some (slot0 # rest) \<Rightarrow>
             (if list_ex (\<lambda>c. cnode c = agentName) slot0
              then Inr (objSet toolName ports1 cs1, [])
              else Inr (objSet toolName
                          (objSet ''ai_tool''
                             ((slot0 @ [\<lparr>cnode = agentName, ctype = ''ai_tool'', cindex = Some index\<rparr>]) # rest)
                             ports1) cs1,
                        [ReversedBackwards toolName agentName])))"

fun reverseAll :: "(string \<times> string \<times> int) list \<Rightarrow> connections \<Rightarrow> exn + (connections \<times> fixMsg list)" where
  "reverseAll [] cs = Inr (cs, [])"
| "reverseAll (b # bs) cs =
     (case reverseOne b cs of
        Inl e \<Rightarrow> Inl e
      | Inr r1 \<Rightarrow>
          (case reverseAll bs (fst r1) of
             Inl e \<Rightarrow> Inl e
           | Inr r2 \<Rightarrow> Inr (fst r2, snd r1 @ snd r2)))"

definition fixBackwardsToolConnections :: "workflow \<Rightarrow> exn + (workflow \<times> nat \<times> fixMsg list)" where
  "fixBackwardsToolConnections w =
     (case connections w of
        None \<Rightarrow> Inr (w, 0, [])
      | Some cs \<Rightarrow>
          (case reverseAll (concat (map (backwardsOf (nodes w)) cs)) cs of
             Inl e \<Rightarrow> Inl e
           | Inr r \<Rightarrow> Inr (w\<lparr>connections := Some (fst r)\<rparr>, length (snd r), snd r)))"

subsection \<open>The loop that makes a name unique\<close>

text \<open>
  Both renaming loops have the shape
  \<^verbatim>\<open>let counter = 1; while (used.has(name)) { counter++; name = `${base} ${counter}`; }\<close>
  The loop ends because the candidates are pairwise different and \<open>used\<close> is finite;
  that is the termination proof of \<open>uniqueFrom\<close>.
\<close>

definition digitsValue :: "string \<Rightarrow> nat" where
  "digitsValue s = foldl (\<lambda>a c. 10 * a + ((of_char c :: nat) - 48)) 0 s"

lemma digitsValue_snoc:
  "digitsValue (s @ [c]) = 10 * digitsValue s + ((of_char c :: nat) - 48)"
  by (simp add: digitsValue_def)

lemma of_char_digit: "d < 10 \<Longrightarrow> (of_char (char_of (48 + d :: nat)) :: nat) = 48 + d"
  by (simp add: of_char_of)

lemma digitsValue_show_nat: "digitsValue (show_nat n) = n"
proof (induction n rule: show_nat.induct)
  case (1 n)
  show ?case
  proof (cases "n < 10")
    case True
    then show ?thesis
      using of_char_digit [of n] by (simp add: show_nat.simps [of n] digitsValue_def)
  next
    case False
    have "n mod 10 < 10" by simp
    then have d: "(of_char (char_of (48 + n mod 10)) :: nat) = 48 + n mod 10"
      by (rule of_char_digit)
    from False 1 have "digitsValue (show_nat (n div 10)) = n div 10" by simp
    with False d show ?thesis
      by (simp add: show_nat.simps [of n] digitsValue_snoc)
  qed
qed

lemma show_nat_inj: "show_nat m = show_nat n \<Longrightarrow> m = n"
  by (metis digitsValue_show_nat)

lemma candidates_finite: "finite {k. base @ '' '' @ show_nat k \<in> set used}"
proof -
  have "inj (\<lambda>k. base @ '' '' @ show_nat k)"
    by (auto simp: inj_def dest: show_nat_inj)
  then have "finite ((\<lambda>k. base @ '' '' @ show_nat k) -` set used)"
    by (intro finite_vimageI) simp_all
  then show ?thesis by (simp add: vimage_def)
qed

function uniqueFrom :: "string \<Rightarrow> string list \<Rightarrow> nat \<Rightarrow> string" where
  "uniqueFrom base used counter =
     (if base @ '' '' @ show_nat (Suc counter) \<in> set used
      then uniqueFrom base used (Suc counter)
      else base @ '' '' @ show_nat (Suc counter))"
  by pat_completeness auto
termination uniqueFrom
proof (relation "measure (\<lambda>(base, used, counter).
          card {k. counter < k \<and> base @ '' '' @ show_nat k \<in> set used})")
  show "wf (measure (\<lambda>(base, used, counter).
          card {k. counter < k \<and> base @ '' '' @ show_nat k \<in> set used}))"
    by simp
next
  fix base :: string and used :: "string list" and counter :: nat
  assume taken: "base @ '' '' @ show_nat (Suc counter) \<in> set used"
  let ?A = "{k. counter < k \<and> base @ '' '' @ show_nat k \<in> set used}"
  let ?B = "{k. Suc counter < k \<and> base @ '' '' @ show_nat k \<in> set used}"
  have fin: "finite ?A"
    by (rule finite_subset [OF _ candidates_finite [of base used]]) auto
  have "?B \<subset> ?A" using taken by auto
  then have "card ?B < card ?A" using fin by (rule psubset_card_mono [rotated])
  then show "((base, used, Suc counter), (base, used, counter)) \<in>
      measure (\<lambda>(base, used, counter).
          card {k. counter < k \<and> base @ '' '' @ show_nat k \<in> set used})"
    by simp
qed

declare uniqueFrom.simps [simp del]

definition uniquify :: "string \<Rightarrow> string list \<Rightarrow> string" where
  "uniquify base used = (if base \<in> set used then uniqueFrom base used 1 else base)"

subsection \<open>fixNodePositioning\<close>

text \<open>
  The pipeline calls this pass after every step has a type and a position of two
  numbers; \<open>coord\<close> reads one of them.
\<close>

definition isAIAgent :: "node \<Rightarrow> bool" where
  "isAIAgent n = (case ntype n of None \<Rightarrow> False | Some t \<Rightarrow> isAIAgentNode t)"

definition isConnectedTo :: "connections option \<Rightarrow> string \<Rightarrow> string option \<Rightarrow> bool" where
  "isConnectedTo conns sourceNode targetNode =
     (case conns of
        None \<Rightarrow> False
      | Some cs \<Rightarrow>
          (case map_of cs sourceNode of
             None \<Rightarrow> False
           | Some ports \<Rightarrow> list_ex (\<lambda>kc. Some (cnode (snd kc)) = targetNode) (portEdges ports)))"

definition coord :: "int list option \<Rightarrow> nat \<Rightarrow> int" where
  "coord p k = (case p of None \<Rightarrow> 0 | Some xs \<Rightarrow> (if k < length xs then xs ! k else 0))"

text \<open>
  One \<open>forEach\<close> over the selected steps: the \<open>k\<close>-th selected step moves to \<open>pos k\<close>
  unless it is there already.
\<close>

fun reposition :: "(node \<Rightarrow> bool) \<Rightarrow> (nat \<Rightarrow> int list) \<Rightarrow> place \<Rightarrow> nat \<Rightarrow> node list
                    \<Rightarrow> node list \<times> fixMsg list" where
  "reposition sel pos pl k [] = ([], [])"
| "reposition sel pos pl k (n # ns) =
     (if sel n
      then (let r = reposition sel pos pl (Suc k) ns
            in if position n = Some (pos k) then (n # fst r, snd r)
               else (n\<lparr>position := Some (pos k)\<rparr> # fst r, Repositioned pl (name n) # snd r))
      else (let r = reposition sel pos pl k ns in (n # fst r, snd r)))"

definition positionAgent :: "connections option \<Rightarrow> node \<Rightarrow> node list \<Rightarrow> node list \<times> fixMsg list" where
  "positionAgent conns agent ns =
     (let agentX = coord (position agent) 0;
          agentY = coord (position agent) 1;
          linked = (\<lambda>n. isConnectedTo conns (keyOf (name n)) (name agent));
          isModel = (\<lambda>n. isChatModelNode (orElse (ntype n) []) \<and> linked n);
          isMemory = (\<lambda>n. isMemoryNode (orElse (ntype n) []) \<and> linked n);
          isTool = (\<lambda>n. isToolNode (orElse (ntype n) []) \<and> linked n);
          toolCount = length (filter isTool ns);
          r1 = reposition isModel (\<lambda>k. [agentX - 200, agentY + 300 + int k * 150]) BelowLeft 0 ns;
          r2 = reposition isMemory (\<lambda>k. [agentX + 200, agentY + 300 + int k * 150]) BelowRight 0 (fst r1);
          r3 = reposition isTool
                 (\<lambda>k. [agentX + (int k - int (toolCount div 2)) * 200, agentY + 300])
                 BelowCenter 0 (fst r2)
      in (fst r3, snd r1 @ snd r2 @ snd r3))"

fun positionAgents :: "connections option \<Rightarrow> node list \<Rightarrow> node list \<Rightarrow> node list \<times> fixMsg list" where
  "positionAgents conns [] ns = (ns, [])"
| "positionAgents conns (a # as) ns =
     (let r1 = positionAgent conns a ns; r2 = positionAgents conns as (fst r1)
      in (fst r2, snd r1 @ snd r2))"

definition fixNodePositioning :: "workflow \<Rightarrow> workflow \<times> fixMsg list" where
  "fixNodePositioning w =
     (let r = positionAgents (connections w) (filter isAIAgent (nodes w)) (nodes w)
      in (w\<lparr>nodes := fst r\<rparr>, snd r))"

subsection \<open>ensureDescriptiveNames\<close>

definition renameSource :: "string \<Rightarrow> string \<Rightarrow> connections \<Rightarrow> connections" where
  "renameSource oldName newName cs =
     (case map_of cs oldName of
        None \<Rightarrow> cs
      | Some ports \<Rightarrow> objDelete oldName (objSet newName ports cs))"

definition renameTargets :: "string \<Rightarrow> string \<Rightarrow> connections \<Rightarrow> connections" where
  "renameTargets oldName newName cs =
     map (\<lambda>e. (fst e, map (\<lambda>p. (fst p,
            map (map (\<lambda>c. if cnode c = oldName then c\<lparr>cnode := newName\<rparr> else c)) (snd p)))
          (snd e))) cs"

definition renameInConnections :: "string option \<Rightarrow> string \<Rightarrow> connections option \<Rightarrow> connections option" where
  "renameInConnections oldName newName conns =
     (case conns of
        None \<Rightarrow> None
      | Some cs \<Rightarrow>
          (if truthyS oldName
           then Some (renameTargets (keyOf oldName) newName (renameSource (keyOf oldName) newName cs))
           else Some cs))"

definition needsDescriptiveName :: "node \<Rightarrow> bool" where
  "needsDescriptiveName n = (\<not> truthyS (name n) \<or> isGenericName (keyOf (name n)))"

fun ensureNames :: "node list \<Rightarrow> string list \<Rightarrow> connections option
                    \<Rightarrow> node list \<times> connections option \<times> fixMsg list" where
  "ensureNames [] used conns = ([], conns, [])"
| "ensureNames (n # ns) used conns =
     (if needsDescriptiveName n
      then (let newName = uniquify (getSuggestedNodeName (ntype n)) used;
                r = ensureNames ns (used @ [newName]) (renameInConnections (name n) newName conns)
            in (n\<lparr>name := Some newName\<rparr> # fst r, fst (snd r),
                RenamedGenericTo (name n) newName # snd (snd r)))
      else (let r = ensureNames ns used conns in (n # fst r, fst (snd r), snd (snd r))))"

definition ensureDescriptiveNames :: "workflow \<Rightarrow> workflow \<times> fixMsg list" where
  "ensureDescriptiveNames w =
     (let usedNames = map (\<lambda>n. keyOf (name n)) (filter (\<lambda>n. \<not> needsDescriptiveName n) (nodes w));
          r = ensureNames (nodes w) usedNames (connections w)
      in (w\<lparr>nodes := fst r, connections := fst (snd r)\<rparr>, snd (snd r)))"

subsection \<open>normalizeAIToolIndexes\<close>

text \<open>
  An edge that has the property \<open>index\<close> with a value other than 0 gets 0 and a
  message with the old value; an edge without the property is left alone.
\<close>

definition needsZero :: "conn \<Rightarrow> bool" where
  "needsZero c = (case cindex c of None \<Rightarrow> False | Some i \<Rightarrow> i \<noteq> 0)"

definition zeroIndex :: "conn \<Rightarrow> conn" where
  "zeroIndex c = (if needsZero c then c\<lparr>cindex := Some 0\<rparr> else c)"

definition normalizeEntry :: "string \<times> nodeConns \<Rightarrow> (string \<times> nodeConns) \<times> fixMsg list" where
  "normalizeEntry e =
     (case map_of (snd e) ''ai_tool'' of
        None \<Rightarrow> (e, [])
      | Some outs \<Rightarrow>
          ((fst e, objSet ''ai_tool'' (map (map zeroIndex) outs) (snd e)),
           map (\<lambda>c. FixedToolIndex (fst e) (cnode c) (indexOrZero c))
             (filter needsZero (concat outs))))"

definition normalizeAIToolIndexes :: "workflow \<Rightarrow> workflow \<times> nat \<times> fixMsg list" where
  "normalizeAIToolIndexes w =
     (case connections w of
        None \<Rightarrow> (w, 0, [])
      | Some cs \<Rightarrow>
          (let rs = map normalizeEntry cs; fixes = concat (map snd rs)
           in (w\<lparr>connections := Some (map fst rs)\<rparr>, length fixes, fixes)))"

subsection \<open>replaceDeprecatedNodes\<close>

definition deprecatedNodes :: "(string \<times> string) list" where
  "deprecatedNodes =
    [(''@n8n/n8n-nodes-langchain.openAi'', ''@n8n/n8n-nodes-langchain.lmChatOpenAi''),
     (''@n8n/n8n-nodes-langchain.chatOpenAi'', ''@n8n/n8n-nodes-langchain.lmChatOpenAi'')]"

definition replaceNode :: "node \<Rightarrow> node \<times> fixMsg list" where
  "replaceNode n =
     (if \<not> truthyS (ntype n) then (n, [])
      else case map_of deprecatedNodes (keyOf (ntype n)) of
             None \<Rightarrow> (n, [])
           | Some newType \<Rightarrow>
               (n\<lparr>ntype := Some newType, name := Some (getSuggestedNodeName (Some newType))\<rparr>,
                [ReplacedDeprecated (keyOf (ntype n)) newType (getSuggestedNodeName (Some newType))]))"

definition replaceDeprecatedNodes :: "workflow \<Rightarrow> workflow \<times> fixMsg list" where
  "replaceDeprecatedNodes w =
     (let rs = map replaceNode (nodes w)
      in (w\<lparr>nodes := map fst rs\<rparr>, concat (map snd rs)))"

subsection \<open>validateAIAgentRequirements\<close>

definition requiredModelTypes :: "string list" where
  "requiredModelTypes =
    [''@n8n/n8n-nodes-langchain.lmChatOpenAi'', ''@n8n/n8n-nodes-langchain.lmChatAnthropic'',
     ''@n8n/n8n-nodes-langchain.lmChatGoogleGemini'', ''@n8n/n8n-nodes-langchain.lmChatGroq'',
     ''@n8n/n8n-nodes-langchain.lmChatOllama'']"

text \<open>
  \<open>findConnectedNodeByType\<close>: the first source, in document order, whose outputs of
  the given port kind hold an edge to the target; the result is the first step of
  that name, if there is one.
\<close>

fun findSource :: "connections \<Rightarrow> string \<Rightarrow> string option \<Rightarrow> string option" where
  "findSource [] connectionType targetName = None"
| "findSource (e # rest) connectionType targetName =
     (case map_of (snd e) connectionType of
        None \<Rightarrow> findSource rest connectionType targetName
      | Some outs \<Rightarrow>
          (if list_ex (\<lambda>c. Some (cnode c) = targetName) (concat outs) then Some (fst e)
           else findSource rest connectionType targetName))"

definition findConnectedNodeByType :: "workflow \<Rightarrow> string option \<Rightarrow> string \<Rightarrow> node option" where
  "findConnectedNodeByType w targetName connectionType =
     (case findSource (case connections w of None \<Rightarrow> [] | Some cs \<Rightarrow> cs) connectionType targetName of
        None \<Rightarrow> None
      | Some sourceName \<Rightarrow> find (\<lambda>n. name n = Some sourceName) (nodes w))"

definition agentIssues :: "workflow \<Rightarrow> node \<Rightarrow> issue list \<times> issue list" where
  "agentIssues w agent =
     (let modelErrors =
            (case findConnectedNodeByType w (name agent) ''ai_languageModel'' of
               None \<Rightarrow> [AgentMissingModel (name agent)]
             | Some modelNode \<Rightarrow>
                 (if list_ex (\<lambda>t. Some t = ntype modelNode) requiredModelTypes then []
                  else [AgentInvalidModel (name agent) (ntype modelNode)]));
          memoryErrors =
            (case findConnectedNodeByType w (name agent) ''ai_memory'' of
               None \<Rightarrow> [AgentMissingMemory (name agent)]
             | Some memoryNode \<Rightarrow>
                 (if isMemoryNode (orElse (ntype memoryNode) []) then []
                  else [AgentInvalidMemory (name agent) (ntype memoryNode)]));
          hasTools =
            list_ex (\<lambda>e. case map_of (snd e) ''ai_tool'' of
                            None \<Rightarrow> False
                          | Some outs \<Rightarrow> list_ex (\<lambda>c. Some (cnode c) = name agent) (concat outs))
              (case connections w of None \<Rightarrow> [] | Some cs \<Rightarrow> cs)
      in (modelErrors @ memoryErrors, if hasTools then [] else [AgentNoTools (name agent)]))"

definition validateAIAgentRequirements :: "workflow \<Rightarrow> issue list \<times> issue list" where
  "validateAIAgentRequirements w =
     (let rs = map (agentIssues w) (filter isAIAgent (nodes w))
      in (concat (map fst rs), concat (map snd rs)))"

subsection \<open>removeOverlinking\<close>

definition isConditionalSource :: "node list \<Rightarrow> string \<Rightarrow> bool" where
  "isConditionalSource ns sourceNode =
     (case find (\<lambda>n. name n = Some sourceNode) ns of
        None \<Rightarrow> False
      | Some n \<Rightarrow> ntype n = Some ''n8n-nodes-base.if'' \<or> ntype n = Some ''n8n-nodes-base.switch'')"

text \<open>
  One iteration of the loop over the adjacency. Only \<open>main[0]\<close>, the first output
  slot, is examined.
\<close>

definition overlinkEntry :: "node list \<Rightarrow> string \<times> nodeConns \<Rightarrow> (string \<times> nodeConns) \<times> fixMsg list" where
  "overlinkEntry ns e =
     (case map_of (snd e) ''main'' of
        None \<Rightarrow> (e, [])
      | Some [] \<Rightarrow> (e, [])
      | Some (mainConns # rest) \<Rightarrow>
          (case mainConns of
             [] \<Rightarrow> (e, [])
           | firstConnection # removedConnections \<Rightarrow>
               (if removedConnections = [] then (e, [])
                else if isConditionalSource ns (fst e) then (e, [])
                else ((fst e, objSet ''main'' ([firstConnection] # rest) (snd e)),
                      map (\<lambda>c. RemovedOverlinking (fst e) (cnode c) (cnode firstConnection))
                        removedConnections))))"

definition removeOverlinking :: "workflow \<Rightarrow> workflow \<times> nat \<times> fixMsg list" where
  "removeOverlinking w =
     (case connections w of
        None \<Rightarrow> (w, 0, [])
      | Some cs \<Rightarrow>
          (let rs = map (overlinkEntry (nodes w)) cs; fixes = concat (map snd rs)
           in (w\<lparr>connections := Some (map fst rs)\<rparr>, length fixes, fixes)))"

subsection \<open>rebuildOrphanedConnections\<close>

text \<open>The keys of \<open>incomingConnections\<close>: every truthy target, counted once at the start.\<close>

definition incomingTargets :: "connections \<Rightarrow> string list" where
  "incomingTargets cs = filter (\<lambda>t. t \<noteq> []) (map (\<lambda>e. cnode (snd (snd e))) (allEdges cs))"

text \<open>
  \<open>connections[src].main[0].push(c)\<close> after the two defaults (\<open>{}\<close> for the entry,
  \<open>[[]]\<close> for \<open>main\<close>); a \<open>main\<close> that holds no slot makes the push raise.
\<close>

definition pushMain :: "string \<Rightarrow> conn \<Rightarrow> connections \<Rightarrow> exn + connections" where
  "pushMain src c cs =
     (let ports0 = (case map_of cs src of None \<Rightarrow> [] | Some ports \<Rightarrow> ports);
          ports1 = (case map_of ports0 ''main'' of
                      None \<Rightarrow> objSet ''main'' [[]] ports0 | Some outs \<Rightarrow> ports0)
      in case map_of ports1 ''main'' of
           None \<Rightarrow> Inl TypeError
         | Some [] \<Rightarrow> Inl TypeError
         | Some (slot0 # rest) \<Rightarrow>
             Inr (objSet src (objSet ''main'' ((slot0 @ [c]) # rest) ports1) cs))"

definition rebuildNode :: "node list \<Rightarrow> string list \<Rightarrow> node \<Rightarrow> connections
                           \<Rightarrow> exn + (connections \<times> fixMsg list)" where
  "rebuildNode ns incoming n cs =
     (let hasOutgoing = (case map_of cs (keyOf (name n)) of None \<Rightarrow> False | Some ports \<Rightarrow> ports \<noteq> []);
          hasIncoming = (case name n of None \<Rightarrow> False | Some s \<Rightarrow> s \<in> set incoming);
          agents = filter isAIAgent ns;
          toMe = \<lparr>cnode = keyOf (name n), ctype = ''main'', cindex = Some 0\<rparr>
      in if hasOutgoing \<or> hasIncoming then Inr (cs, [])
         else if isAIAgent n then Inr (cs, [])
         else if isAllowedToolNode (orElse (ntype n) [])
         then (case agents of
                 [] \<Rightarrow> Inr (cs, [])
               | nearestAgent # others \<Rightarrow>
                   Inr (objSet (keyOf (name n))
                          (objSet ''ai_tool''
                             [[\<lparr>cnode = keyOf (name nearestAgent), ctype = ''ai_tool'', cindex = Some 0\<rparr>]]
                             (case map_of cs (keyOf (name n)) of None \<Rightarrow> [] | Some ports \<Rightarrow> ports))
                          cs,
                        [RebuiltToolConnection (name n) (name nearestAgent)]))
         else (case agents of
                 agent # others \<Rightarrow>
                   (case pushMain (keyOf (name agent)) toMe cs of
                      Inl e \<Rightarrow> Inl e
                    | Inr cs' \<Rightarrow> Inr (cs', [ReconnectedFromAgent (name n) (name agent)]))
               | [] \<Rightarrow>
                   (case find (\<lambda>m. \<not> strIncludes (toLowerCase (orElse (ntype m) [])) ''trigger'' \<and>
                                   name m \<noteq> name n) ns of
                      None \<Rightarrow> Inr (cs, [])
                    | Some targetNode \<Rightarrow>
                        (case pushMain (keyOf (name targetNode)) toMe cs of
                           Inl e \<Rightarrow> Inl e
                         | Inr cs' \<Rightarrow> Inr (cs', [ReconnectedFrom (name n) (name targetNode)])))))"

fun rebuildNodes :: "node list \<Rightarrow> string list \<Rightarrow> node list \<Rightarrow> connections
                     \<Rightarrow> exn + (connections \<times> fixMsg list)" where
  "rebuildNodes ns incoming [] cs = Inr (cs, [])"
| "rebuildNodes ns incoming (n # rest) cs =
     (case rebuildNode ns incoming n cs of
        Inl e \<Rightarrow> Inl e
      | Inr r1 \<Rightarrow>
          (case rebuildNodes ns incoming rest (fst r1) of
             Inl e \<Rightarrow> Inl e
           | Inr r2 \<Rightarrow> Inr (fst r2, snd r1 @ snd r2)))"

definition rebuildOrphanedConnections :: "workflow \<Rightarrow> exn + (workflow \<times> nat \<times> fixMsg list)" where
  "rebuildOrphanedConnections w =
     (let cs = (case connections w of None \<Rightarrow> [] | Some cs \<Rightarrow> cs)
      in case rebuildNodes (nodes w) (incomingTargets cs) (nodes w) cs of
           Inl e \<Rightarrow> Inl e
         | Inr r \<Rightarrow> Inr (w\<lparr>connections := Some (fst r)\<rparr>, length (snd r), snd r))"

section \<open>applyAutoFixes (validator.ts, lines 1500 to 1846)\<close>

text \<open>
  The function works on \<open>JSON.parse(JSON.stringify(workflowJson))\<close>. In this
  section the copy is the value itself; the section on the store keeps the two
  objects apart. \<open>uuid i\<close> stands for the identifier \<open>uuidv4()\<close> returns for the step
  at index \<open>i\<close>. A \<open>workflow\<close> always has its array of steps, so the early return
  for a missing array has no counterpart; \<open>validateWorkflow\<close> returns before the
  call in that case.
\<close>

definition credentialMappings :: "(string \<times> string \<times> string) list" where
  "credentialMappings =
    [(''googlesheets'', ''googleSheetsOAuth2Api'', ''Google Sheets account''),
     (''gmail'', ''gmailOAuth2'', ''Gmail account''),
     (''slack'', ''slackOAuth2Api'', ''Slack account''),
     (''discord'', ''discordOAuth2Api'', ''Discord account''),
     (''notion'', ''notionOAuth2Api'', ''Notion account''),
     (''airtable'', ''airtableOAuth2Api'', ''Airtable account''),
     (''github'', ''githubOAuth2Api'', ''GitHub account''),
     (''gitlab'', ''gitlabOAuth2Api'', ''GitLab account''),
     (''shopify'', ''shopifyOAuth2Api'', ''Shopify account''),
     (''stripe'', ''stripeApi'', ''Stripe account''),
     (''hubspot'', ''hubspotOAuth2Api'', ''HubSpot account''),
     (''googledrive'', ''googleDriveOAuth2Api'', ''Google Drive account''),
     (''dropbox'', ''dropboxOAuth2Api'', ''Dropbox account''),
     (''postgres'', ''postgres'', ''PostgreSQL account''),
     (''mysql'', ''mySql'', ''MySQL account''),
     (''mongodb'', ''mongoDb'', ''MongoDB account''),
     (''redis'', ''redis'', ''Redis account''),
     (''ssh'', ''sshPassword'', ''SSH account''),
     (''ftp'', ''ftp'', ''FTP account''),
     (''openai'', ''openAiApi'', ''OpenAI account''),
     (''anthropic'', ''anthropicApi'', ''Anthropic account'')]"

subsection \<open>The loop over the steps\<close>

definition addMissingType :: "node \<Rightarrow> node \<times> fixMsg list" where
  "addMissingType n =
     (if \<not> truthyS (ntype n)
      then (n\<lparr>ntype := Some ''n8n-nodes-base.httpRequest''\<rparr>, [AddedNodeType (orElse (name n) ''unnamed'')])
      else (n, []))"

definition fixTypeFormat :: "node \<Rightarrow> node \<times> fixMsg list" where
  "fixTypeFormat n =
     (if truthyS (ntype n) \<and> \<not> strIncludes (keyOf (ntype n)) ''.''
      then (n\<lparr>ntype := Some (''n8n-nodes-base.'' @ keyOf (ntype n))\<rparr>,
            [FixedTypeFormat (keyOf (ntype n)) (''n8n-nodes-base.'' @ keyOf (ntype n))])
      else (n, []))"

text \<open>
  \<open>names0\<close> are the names of all steps when the loop starts (the source counts them
  in \<open>nodeNameCounts\<close>); \<open>nodeNames\<close> are the names given so far.
\<close>

definition fixName :: "string option list \<Rightarrow> nat \<Rightarrow> string list \<Rightarrow> node \<Rightarrow> node \<times> fixMsg list" where
  "fixName names0 i nodeNames n =
     (if \<not> truthyS (name n) \<or> 1 < count_list names0 (name n) \<or> isGenericName (keyOf (name n))
      then (let uniqueName = uniquify (generateDescriptiveName n i) nodeNames
            in (n\<lparr>name := Some uniqueName\<rparr>,
                [if \<not> truthyS (name n) then AddedDescriptiveName uniqueName
                 else if isGenericName (keyOf (name n)) then RenamedGeneric (keyOf (name n)) uniqueName
                 else ResolvedDuplicateName (keyOf (name n)) uniqueName]))
      else (n, []))"

definition addMissingId :: "(nat \<Rightarrow> string) \<Rightarrow> nat \<Rightarrow> node \<Rightarrow> node \<times> fixMsg list" where
  "addMissingId uuid i n =
     (if \<not> truthyS (nid n) then (n\<lparr>nid := Some (uuid i)\<rparr>, [AddedId (keyOf (name n))]) else (n, []))"

definition fixPosition :: "nat \<Rightarrow> node \<Rightarrow> node \<times> fixMsg list" where
  "fixPosition i n =
     (if (case position n of None \<Rightarrow> True | Some p \<Rightarrow> length p \<noteq> 2)
      then (n\<lparr>position := Some [100 + int i * 200, 250]\<rparr>, [SetDefaultPosition (keyOf (name n))])
      else (n, []))"

definition fixParameters :: "node \<Rightarrow> node \<times> fixMsg list" where
  "fixParameters n =
     (if \<not> typeofObject (parameters n) \<or> parameters n = Some JNull
      then (n\<lparr>parameters := Some (JObj [])\<rparr>, [AddedEmptyParameters (keyOf (name n))])
      else (n, []))"

text \<open>Every entry whose value is the empty string gets \<open>placeholder-<key>\<close>; the keys of
  an array are its indices.\<close>

definition placeholderValue :: "string \<Rightarrow> jvalue \<Rightarrow> jvalue" where
  "placeholderValue k v = (if v = JStr [] then JStr (''placeholder-'' @ k) else v)"

definition fillPlaceholders :: "node \<Rightarrow> node \<times> fixMsg list" where
  "fillPlaceholders n =
     (case parameters n of
        Some (JObj kvs) \<Rightarrow>
          (n\<lparr>parameters := Some (JObj (map (\<lambda>kv. (fst kv, placeholderValue (fst kv) (snd kv))) kvs))\<rparr>,
           map (\<lambda>kv. ReplacedEmptyParameter (fst kv) (keyOf (name n)))
             (filter (\<lambda>kv. snd kv = JStr []) kvs))
      | Some (JArr vs) \<Rightarrow>
          (n\<lparr>parameters := Some (JArr (map (\<lambda>iv. placeholderValue (show_nat (fst iv)) (snd iv))
                                        (zip [0 ..< length vs] vs)))\<rparr>,
           map (\<lambda>iv. ReplacedEmptyParameter (show_nat (fst iv)) (keyOf (name n)))
             (filter (\<lambda>iv. snd iv = JStr []) (zip [0 ..< length vs] vs)))
      | _ \<Rightarrow> (n, []))"

definition addCredentials :: "nat \<Rightarrow> node \<Rightarrow> node \<times> fixMsg list" where
  "addCredentials i n =
     (let nodeTypeSimple = toLowerCase (lastSegment (keyOf (ntype n)))
      in case find (\<lambda>m. strIncludes nodeTypeSimple (fst m)) credentialMappings of
           None \<Rightarrow> (n, [])
         | Some m \<Rightarrow>
             (if truthy (credentials n) then (n, [])
              else (n\<lparr>credentials := Some (JObj [(fst (snd m),
                        JObj [(''id'', JStr (''placeholder-'' @ fst m @ ''-'' @ show_nat i)),
                              (''name'', JStr (snd (snd m)))])])\<rparr>,
                    [AddedPlaceholderCredentials (keyOf (name n))])))"

definition fixNode :: "(nat \<Rightarrow> string) \<Rightarrow> string option list \<Rightarrow> nat \<Rightarrow> string list \<Rightarrow> node
                       \<Rightarrow> node \<times> fixMsg list" where
  "fixNode uuid names0 i nodeNames n =
     (let r1 = addMissingType n;
          r2 = fixTypeFormat (fst r1);
          r3 = fixName names0 i nodeNames (fst r2);
          r4 = addMissingId uuid i (fst r3);
          r5 = fixPosition i (fst r4);
          r6 = fixParameters (fst r5);
          r7 = fillPlaceholders (fst r6);
          r8 = addCredentials i (fst r7)
      in (fst r8, snd r1 @ snd r2 @ snd r3 @ snd r4 @ snd r5 @ snd r6 @ snd r7 @ snd r8))"

fun fixNodes :: "(nat \<Rightarrow> string) \<Rightarrow> string option list \<Rightarrow> nat \<Rightarrow> string list \<Rightarrow> node list
                 \<Rightarrow> node list \<times> fixMsg list" where
  "fixNodes uuid names0 i nodeNames [] = ([], [])"
| "fixNodes uuid names0 i nodeNames (n # ns) =
     (let r = fixNode uuid names0 i nodeNames n;
          rest = fixNodes uuid names0 (Suc i) (nodeNames @ [keyOf (name (fst r))]) ns
      in (fst r # fst rest, snd r @ snd rest))"

subsection \<open>Automatic connection of an unconnected workflow\<close>

definition mainEdgeTo :: "node \<Rightarrow> nodeConns" where
  "mainEdgeTo n = [(''main'', [[\<lparr>cnode = keyOf (name n), ctype = ''main'', cindex = Some 0\<rparr>]])]"

fun chainFlow :: "node list \<Rightarrow> connections \<Rightarrow> connections" where
  "chainFlow (a # b # rest) cs = chainFlow (b # rest) (objSet (keyOf (name a)) (mainEdgeTo b) cs)"
| "chainFlow flow cs = cs"

definition autoConnect :: "workflow \<Rightarrow> workflow \<times> fixMsg list" where
  "autoConnect w =
     (if 1 < length (nodes w) \<and> (connections w = None \<or> connections w = Some [])
      then (let triggerNodes = filter (\<lambda>n. isTriggerNode (orElse (ntype n) [])) (nodes w);
                actionNodes = filter (\<lambda>n. \<not> isTriggerNode (orElse (ntype n) [])) (nodes w)
            in case (triggerNodes, actionNodes) of
                 ([t], [a]) \<Rightarrow>
                   (w\<lparr>connections := Some [(keyOf (name t), mainEdgeTo a)]\<rparr>,
                    [ConnectedTrigger (keyOf (name t)) (keyOf (name a))])
               | (t # ts, a # as) \<Rightarrow>
                   (w\<lparr>connections := Some (chainFlow (t # a # as) [])\<rparr>,
                    [CreatedSequentialConnections (map (\<lambda>n. keyOf (name n)) (t # a # as))])
               | _ \<Rightarrow> (w, []))
      else (w, []))"

subsection \<open>Removal of invalid and duplicate connections\<close>

definition validName :: "node list \<Rightarrow> string \<Rightarrow> bool" where
  "validName ns s = (Some s \<in> set (map name ns))"

definition connectionKey :: "string \<Rightarrow> conn \<Rightarrow> string" where
  "connectionKey sourceNode c =
     sourceNode @ ''->'' @ cnode c @ '':'' @ ctype c @ '':'' @ showIndex c"

fun cleanSlot :: "node list \<Rightarrow> string \<Rightarrow> string list \<Rightarrow> conn list \<Rightarrow> conn list \<times> fixMsg list" where
  "cleanSlot ns sourceNode seen [] = ([], [])"
| "cleanSlot ns sourceNode seen (c # cs) =
     (if cnode c = [] \<or> \<not> validName ns (cnode c)
      then (let r = cleanSlot ns sourceNode seen cs
            in (fst r, RemovedConnectionToNonexistent sourceNode (cnode c) # snd r))
      else if connectionKey sourceNode c \<in> set seen
      then (let r = cleanSlot ns sourceNode seen cs
            in (fst r, RemovedDuplicateConnection sourceNode (cnode c) # snd r))
      else (let r = cleanSlot ns sourceNode (connectionKey sourceNode c # seen) cs
            in (c # fst r, snd r)))"

definition cleanPorts :: "node list \<Rightarrow> string \<Rightarrow> nodeConns \<Rightarrow> nodeConns \<times> fixMsg list" where
  "cleanPorts ns sourceNode ports =
     (let rs = map (\<lambda>p. (fst p, map (cleanSlot ns sourceNode []) (snd p))) ports
      in (map (\<lambda>r. (fst r, map fst (snd r))) rs,
          concat (map (\<lambda>r. concat (map snd (snd r))) rs)))"

fun cleanEntries :: "node list \<Rightarrow> connections \<Rightarrow> connections \<times> fixMsg list" where
  "cleanEntries ns [] = ([], [])"
| "cleanEntries ns (e # rest) =
     (let r = cleanEntries ns rest
      in if \<not> validName ns (fst e) then (fst r, RemovedNonexistentSource (fst e) # snd r)
         else (let p = cleanPorts ns (fst e) (snd e)
               in ((fst e, fst p) # fst r, snd p @ snd r)))"

definition cleanConnections :: "workflow \<Rightarrow> workflow \<times> fixMsg list" where
  "cleanConnections w =
     (case connections w of
        None \<Rightarrow> (w, [])
      | Some cs \<Rightarrow> (let r = cleanEntries (nodes w) cs in (w\<lparr>connections := Some (fst r)\<rparr>, snd r)))"

subsection \<open>The structural part, then the ten passes\<close>

definition fixWorkflowName :: "workflow \<Rightarrow> workflow \<times> fixMsg list" where
  "fixWorkflowName w =
     (if \<not> truthyS (wname w) then (w\<lparr>wname := Some ''My Workflow''\<rparr>, [AddedWorkflowName]) else (w, []))"

definition ensureConnections :: "workflow \<Rightarrow> workflow \<times> fixMsg list" where
  "ensureConnections w =
     (if connections w = None then (w\<lparr>connections := Some []\<rparr>, [AddedConnectionsObject]) else (w, []))"

definition fixAllNodes :: "(nat \<Rightarrow> string) \<Rightarrow> workflow \<Rightarrow> workflow \<times> fixMsg list" where
  "fixAllNodes uuid w =
     (let r = fixNodes uuid (map name (nodes w)) 0 [] (nodes w) in (w\<lparr>nodes := fst r\<rparr>, snd r))"

definition structuralFixes :: "(nat \<Rightarrow> string) \<Rightarrow> workflow \<Rightarrow> workflow \<times> fixMsg list" where
  "structuralFixes uuid w =
     (let r1 = fixWorkflowName w;
          r2 = ensureConnections (fst r1);
          r3 = fixAllNodes uuid (fst r2);
          r4 = autoConnect (fst r3);
          r5 = cleanConnections (fst r4)
      in (fst r5, snd r1 @ snd r2 @ snd r3 @ snd r4 @ snd r5))"

text \<open>The headline of a pass and its indented details, pushed when the pass did something.\<close>

definition report :: "nat \<Rightarrow> bool \<Rightarrow> nat \<Rightarrow> fixMsg list \<Rightarrow> fixMsg list" where
  "report k did n details = (if did then Summary k n # map Detail details else [])"

definition agentWarnings :: "issue list \<times> issue list \<Rightarrow> issue list" where
  "agentWarnings v = map AsWarning (fst v) @ snd v"

text \<open>
  In the source's numbering \<open>[FIX-k]\<close>: passes 8, 1, 2, 3, then pass 4 (which can
  raise), 5, 6, 7, 9, then pass 10 (which can raise, and runs only when a step has
  the agent type).
\<close>

definition firstPasses :: "workflow \<Rightarrow> exn + (workflow \<times> fixMsg list \<times> issue list)" where
  "firstPasses w0 =
     (let f8 = replaceDeprecatedNodes w0;
          warnings = agentWarnings (validateAIAgentRequirements (fst f8));
          f1 = removeInvalidAIToolConnections (fst f8);
          f2 = convertRegularNodesToTools (fst f1);
          f3 = removeHardcodedModelParameters (fst f2)
      in case fixBackwardsToolConnections (fst f3) of
           Inl e \<Rightarrow> Inl e
         | Inr f4 \<Rightarrow>
             Inr (fst f4,
                  report 8 (snd f8 \<noteq> []) 0 (snd f8) @
                  report 1 (0 < snd f1) (snd f1) [] @
                  report 2 (0 < fst (snd f2)) (fst (snd f2)) (snd (snd f2)) @
                  report 3 (0 < fst (snd f3)) (fst (snd f3)) (snd (snd f3)) @
                  report 4 (0 < fst (snd f4)) (fst (snd f4)) (snd (snd f4)),
                  warnings))"

definition lastPasses :: "workflow \<Rightarrow> exn + (workflow \<times> fixMsg list)" where
  "lastPasses w4 =
     (let f5 = fixNodePositioning w4;
          f6 = ensureDescriptiveNames (fst f5);
          f7 = normalizeAIToolIndexes (fst f6);
          f9 = removeOverlinking (fst f7);
          fixes = report 5 (snd f5 \<noteq> []) 0 (snd f5) @
                  report 6 (snd f6 \<noteq> []) 0 (snd f6) @
                  report 7 (0 < fst (snd f7)) (fst (snd f7)) (snd (snd f7)) @
                  report 9 (0 < fst (snd f9)) (fst (snd f9)) (snd (snd f9))
      in if list_ex isAIAgent (nodes (fst f9))
         then (case rebuildOrphanedConnections (fst f9) of
                 Inl e \<Rightarrow> Inl e
               | Inr f10 \<Rightarrow>
                   Inr (fst f10,
                        fixes @ report 10 (0 < fst (snd f10)) (fst (snd f10)) (snd (snd f10))))
         else Inr (fst f9, fixes))"

record fixResult =
  fixed :: bool
  fixedWorkflow :: workflow
  fixList :: "fixMsg list"
  fixWarnings :: "issue list"

text \<open>
  \<open>fixed\<close> is set to true exactly where a message is pushed on \<open>fixes\<close>, so it is the
  test that the list is not empty.
\<close>

definition applyAutoFixes :: "(nat \<Rightarrow> string) \<Rightarrow> workflow \<Rightarrow> exn + fixResult" where
  "applyAutoFixes uuid workflowJson =
     (let s = structuralFixes uuid workflowJson
      in case firstPasses (fst s) of
           Inl e \<Rightarrow> Inl e
         | Inr a \<Rightarrow>
             (case lastPasses (fst a) of
                Inl e \<Rightarrow> Inl e
              | Inr b \<Rightarrow>
                  Inr \<lparr>fixed = (snd s @ fst (snd a) @ snd b \<noteq> []),
                       fixedWorkflow = fst b,
                       fixList = snd s @ fst (snd a) @ snd b,
                       fixWarnings = snd (snd a)\<rparr>))"

section \<open>validateConnections (validator.ts, lines 1403 to 1495)\<close>

text \<open>
  The state of the first loop: the errors, the set \<open>connectedNodes\<close> and the map
  \<open>connectionPairs\<close> from the key \<open>`${sourceName}->${conn.node}`\<close> to a count, in
  insertion order.
\<close>

record connState =
  csErrors :: "issue list"
  connectedNodes :: "string list"
  connectionPairs :: "(string \<times> nat) list"

definition pairKey :: "string \<Rightarrow> string \<Rightarrow> string" where
  "pairKey sourceName target = sourceName @ ''->'' @ target"

definition bumpPair :: "string \<Rightarrow> (string \<times> nat) list \<Rightarrow> (string \<times> nat) list" where
  "bumpPair k m = objSet k ((case map_of m k of None \<Rightarrow> 0 | Some c \<Rightarrow> c) + 1) m"

definition visitConn :: "node list \<Rightarrow> string \<Rightarrow> conn \<Rightarrow> connState \<Rightarrow> connState" where
  "visitConn ns sourceName c st =
     (if \<not> validName ns (cnode c)
      then st\<lparr>csErrors := csErrors st @ [TargetNotFound (cnode c) sourceName]\<rparr>
      else st\<lparr>connectedNodes := connectedNodes st @ [cnode c],
              connectionPairs := bumpPair (pairKey sourceName (cnode c)) (connectionPairs st)\<rparr>)"

definition visitSource :: "node list \<Rightarrow> string \<times> nodeConns \<Rightarrow> connState \<Rightarrow> connState" where
  "visitSource ns e st =
     (if \<not> validName ns (fst e)
      then st\<lparr>csErrors := csErrors st @ [SourceNotFound (fst e)]\<rparr>
      else fold (\<lambda>kc. visitConn ns (fst e) (snd kc)) (portEdges (snd e))
             (st\<lparr>connectedNodes := connectedNodes st @ [fst e]\<rparr>))"

definition hangingIssue :: "node \<Rightarrow> issue list" where
  "hangingIssue n =
     (let nodeType = orElse (ntype n) []
      in if nodeType = ''n8n-nodes-base.stickyNote'' then []
         else if isTriggerNode nodeType then [HangingTrigger (name n)]
         else if isToolNode nodeType then [HangingTool (name n)]
         else if isLanguageModelNode nodeType then [HangingLLM (name n)]
         else if isMemoryNode nodeType then [HangingMemory (name n)]
         else [HangingNode (name n)])"

definition isConnectedName :: "string list \<Rightarrow> string option \<Rightarrow> bool" where
  "isConnectedName connected nm = (case nm of None \<Rightarrow> False | Some s \<Rightarrow> s \<in> set connected)"

definition duplicateWarnings :: "(string \<times> nat) list \<Rightarrow> issue list" where
  "duplicateWarnings pairs =
     map (\<lambda>kc. DuplicateConnection (fst kc) (snd kc)) (filter (\<lambda>kc. 1 < snd kc) pairs)"

definition validateConnections :: "node list \<Rightarrow> connections \<Rightarrow> issue list \<times> issue list" where
  "validateConnections ns cs =
     (let st = fold (visitSource ns) cs \<lparr>csErrors = [], connectedNodes = [], connectionPairs = []\<rparr>;
          unconnectedNodes = filter (\<lambda>n. \<not> isConnectedName (connectedNodes st) (name n)) ns
      in (csErrors st @ concat (map hangingIssue unconnectedNodes),
          duplicateWarnings (connectionPairs st)))"

section \<open>validateWorkflow (validator.ts, lines 1214 to 1398)\<close>

text \<open>
  What the caller passes: anything (\<open>NotAnObject\<close> stands for a value that is falsy
  or not an object), or an object whose \<open>nodes\<close> are absent or an array whose
  elements are step objects or something else. A \<open>parameters\<close> value that is not
  an object is a \<open>JBool\<close>, \<open>JNum\<close> or \<open>JStr\<close>.
\<close>

datatype rawNode = NotANode | NodeObject node

record rawWorkflow =
  rawName :: "string option"
  rawNodes :: "rawNode list option"
  rawConnections :: "connections option"

datatype input = NotAnObject | WorkflowObject rawWorkflow

record validationResult =
  valid :: bool
  errors :: "issue list"
  warnings :: "issue list"
  fixMessages :: "fixMsg list"
  autofixed :: bool
  normalized :: "workflow option"

definition failure :: "issue list \<Rightarrow> issue list \<Rightarrow> validationResult" where
  "failure errs warns =
     \<lparr>valid = False, errors = errs, warnings = warns, fixMessages = [], autofixed = False,
      normalized = None\<rparr>"

definition nodeRefOf :: "node \<Rightarrow> nat \<Rightarrow> nodeRef" where
  "nodeRefOf n i = (if truthyS (name n) then Named (keyOf (name n)) else AtIndex i)"

definition missingFields :: "node \<Rightarrow> nat \<Rightarrow> issue list" where
  "missingFields n i =
     (if \<not> truthyS (name n) then [MissingNameField i] else []) @
     (if \<not> truthyS (ntype n) then [MissingTypeField i] else []) @
     (if position n = None then [MissingPositionField (nodeRefOf n i)] else [])"

text \<open>
  STEP 0, the loop over the steps: \<open>Inl\<close> is an immediate return with the errors
  collected so far and the critical one; \<open>Inr\<close> is the end of the loop. \<open>JSON.stringify\<close>
  cannot fail on a parameter bag that is JSON.
\<close>

fun scanNodes :: "nat \<Rightarrow> rawNode list \<Rightarrow> issue list \<Rightarrow> issue list + (node list \<times> issue list)" where
  "scanNodes i [] errs = Inr ([], errs)"
| "scanNodes i (NotANode # rest) errs = Inl (errs @ [NodeNotObject i])"
| "scanNodes i (NodeObject n # rest) errs =
     (if parameters n \<noteq> None \<and> \<not> typeofObject (parameters n)
      then Inl (errs @ [MalformedParameters (nodeRefOf n i)])
      else (case scanNodes (Suc i) rest (errs @ missingFields n i) of
              Inl es \<Rightarrow> Inl es
            | Inr r \<Rightarrow> Inr (n # fst r, snd r)))"

definition malformedBanner :: "issue list" where
  "malformedBanner = map MalformedBanner [0, 1, 2, 3, 4]"

text \<open>STEP 3, the checks on one step.\<close>

definition nodeErrors :: "node \<Rightarrow> issue list" where
  "nodeErrors n =
     (if \<not> truthyS (name n) then [NodeMissingName] else []) @
     (if \<not> truthyS (ntype n) then [NodeMissingType (orElse (name n) ''unnamed'')] else []) @
     (if truthyS (ntype n) \<and> \<not> strIncludes (keyOf (ntype n)) ''.''
      then [InvalidTypeFormat (name n) (keyOf (ntype n))] else []) @
     (if (case position n of None \<Rightarrow> True | Some p \<Rightarrow> length p \<noteq> 2)
      then [InvalidPosition (name n)] else []) @
     (if \<not> typeofObject (parameters n) then [MissingParameters (name n)] else []) @
     (if truthyS (name n) \<and> isGenericName (keyOf (name n)) then [GenericName (keyOf (name n))] else [])"

text \<open>
  STEP 1 to STEP 5 on an object whose \<open>nodes\<close> are step objects. \<open>schemaErrors\<close> are
  the messages of the schema library for this input. An exception of a pass ends in
  the \<open>catch\<close> block.
\<close>

definition checkAndFix :: "(nat \<Rightarrow> string) \<Rightarrow> issue list \<Rightarrow> workflow \<Rightarrow> bool \<Rightarrow> validationResult" where
  "checkAndFix uuid schemaErrors w autofix =
     (if nodes w = [] then failure [MustHaveOneNode] []
      else
        (let conn = (case connections w of
                       None \<Rightarrow> ([], [])
                     | Some cs \<Rightarrow> validateConnections (nodes w) cs);
             errors0 = schemaErrors @
                       (if \<not> distinct (map name (nodes w)) then [DuplicateNames] else []) @
                       concat (map nodeErrors (nodes w)) @ fst conn;
             warnings0 = snd conn
         in if \<not> autofix
            then \<lparr>valid = (errors0 = []), errors = errors0, warnings = warnings0, fixMessages = [],
                  autofixed = False, normalized = Some w\<rparr>
            else (case applyAutoFixes uuid w of
                    Inl e \<Rightarrow> failure [Thrown (case e of TypeError \<Rightarrow> ''TypeError'')] []
                  | Inr r \<Rightarrow>
                      (let postFixErrors =
                             (if \<not> distinct (map name (nodes (fixedWorkflow r)))
                              then [DuplicateNamesAfterFix] else []);
                           errors1 = (if fixed r \<and> postFixErrors = [] then []
                                      else errors0 @ postFixErrors)
                       in \<lparr>valid = (errors1 = []), errors = errors1,
                           warnings = warnings0 @ fixWarnings r, fixMessages = fixList r,
                           autofixed = fixed r,
                           normalized = Some (if fixed r then fixedWorkflow r else w)\<rparr>))))"

definition validateWorkflow :: "(nat \<Rightarrow> string) \<Rightarrow> issue list \<Rightarrow> input \<Rightarrow> bool \<Rightarrow> validationResult" where
  "validateWorkflow uuid schemaErrors workflowJson autofix =
     (case workflowJson of
        NotAnObject \<Rightarrow> failure [InvalidFormat] []
      | WorkflowObject raw \<Rightarrow>
          (case rawNodes raw of
             None \<Rightarrow> failure [MustHaveNodesArray] []
           | Some rns \<Rightarrow>
               (case scanNodes 0 rns [] of
                  Inl errs \<Rightarrow> failure errs []
                | Inr r \<Rightarrow>
                    (if snd r \<noteq> [] then failure (malformedBanner @ snd r) []
                     else checkAndFix uuid schemaErrors
                            \<lparr>wname = rawName raw, nodes = fst r, connections = rawConnections raw\<rparr>
                            autofix))))"

section \<open>calculateWorkflowDepth (analyzer.ts, lines 78 to 117)\<close>

text \<open>
  The depths are JavaScript numbers. Every depth the loop computes is a whole
  number got from 0 by adding 1; such an addition is exact below \<open>2 ^ 53\<close>, and
  \<open>2 ^ 53 + 1\<close> rounds back to \<open>2 ^ 53\<close>. \<open>jsSucc\<close> is that addition.
\<close>

definition jsSucc :: "nat \<Rightarrow> nat" where
  "jsSucc d = (if d < 2 ^ 53 then d + 1 else d)"

text \<open>
  \<open>depths\<close> is a \<open>Map\<close>, whose keys are compared as values: the name of a trigger
  that has none is the key \<open>undefined\<close> (\<open>None\<close>), which differs from every string.
  \<open>mapSet\<close> is \<open>depths.set(k, v)\<close> and \<open>depthOf\<close> is \<open>depths.get(k) || 0\<close>.
\<close>

fun mapSet :: "'k \<Rightarrow> 'v \<Rightarrow> ('k \<times> 'v) list \<Rightarrow> ('k \<times> 'v) list" where
  "mapSet k v [] = [(k, v)]"
| "mapSet k v ((k', v') # rest) = (if k' = k then (k, v) # rest else (k', v') # mapSet k v rest)"

record depthState =
  depths :: "(string option \<times> nat) list"
  queue :: "string option list"
  maxDepth :: nat

definition depthOf :: "(string option \<times> nat) list \<Rightarrow> string option \<Rightarrow> nat" where
  "depthOf ds k = (case map_of ds k of None \<Rightarrow> 0 | Some d \<Rightarrow> d)"

definition relaxEdge :: "nat \<Rightarrow> conn \<Rightarrow> depthState \<Rightarrow> depthState" where
  "relaxEdge currentDepth c st =
     (let nextDepth = jsSucc currentDepth; existingDepth = depthOf (depths st) (Some (cnode c))
      in if existingDepth < nextDepth
         then \<lparr>depths = mapSet (Some (cnode c)) nextDepth (depths st),
               queue = (if Some (cnode c) \<in> set (queue st) then queue st
                        else queue st @ [Some (cnode c)]),
               maxDepth = max (maxDepth st) nextDepth\<rparr>
         else st)"

text \<open>
  One iteration of the \<open>while\<close> loop, for the queue \<open>currentNode # rest\<close>; the
  adjacency is an object, so it is read at the string the name coerces to.
\<close>

definition depthStep :: "connections \<Rightarrow> string option \<Rightarrow> string option list \<Rightarrow> depthState \<Rightarrow> depthState" where
  "depthStep cs currentNode rest st =
     (case map_of cs (keyOf currentNode) of
        None \<Rightarrow> st\<lparr>queue := rest\<rparr>
      | Some ports \<Rightarrow>
          fold (\<lambda>kc. relaxEdge (depthOf (depths st) currentNode) (snd kc)) (portEdges ports)
            (st\<lparr>queue := rest\<rparr>))"

text \<open>
  The loop with a bound on its iterations: \<open>None\<close> when the queue is not empty after
  \<open>fuel\<close> iterations, that is, when the function has not returned by then.
\<close>

fun depthLoop :: "nat \<Rightarrow> connections \<Rightarrow> depthState \<Rightarrow> nat option" where
  "depthLoop 0 cs st = None"
| "depthLoop (Suc fuel) cs st =
     (case queue st of
        [] \<Rightarrow> Some (maxDepth st)
      | currentNode # rest \<Rightarrow> depthLoop fuel cs (depthStep cs currentNode rest st))"

text \<open>
  \<open>workflow.nodes.find(n => n.type.includes('Trigger') || n.type.includes('trigger'))\<close>:
  the first step whose type has one of the two substrings. A step without a type
  that is reached before one is found makes \<open>n.type.includes\<close> raise.
\<close>

definition isTriggerType :: "string \<Rightarrow> bool" where
  "isTriggerType t = (strIncludes t ''Trigger'' \<or> strIncludes t ''trigger'')"

fun findTrigger :: "node list \<Rightarrow> exn + node option" where
  "findTrigger [] = Inr None"
| "findTrigger (n # ns) =
     (case ntype n of
        None \<Rightarrow> Inl TypeError
      | Some t \<Rightarrow> if isTriggerType t then Inr (Some n) else findTrigger ns)"

text \<open>
  With a trigger and no adjacency, \<open>workflow.connections[currentNode]\<close> raises in the
  first iteration of the loop.
\<close>

definition calculateWorkflowDepth :: "nat \<Rightarrow> workflow \<Rightarrow> (exn + nat) option" where
  "calculateWorkflowDepth fuel w =
     (case findTrigger (nodes w) of
        Inl e \<Rightarrow> Some (Inl e)
      | Inr None \<Rightarrow> Some (Inr 0)
      | Inr (Some trigger) \<Rightarrow>
          (case connections w of
             None \<Rightarrow> (if fuel = 0 then None else Some (Inl TypeError))
           | Some cs \<Rightarrow>
               map_option Inr
                 (depthLoop fuel cs
                    \<lparr>depths = [(name trigger, 0)], queue = [name trigger], maxDepth = 0\<rparr>)))"

section \<open>The caller's object and the copy\<close>

text \<open>
  To say what a call leaves untouched, objects get addresses. A store is the list
  of the workflow objects that exist; an address is an index into it. The argument
  of \<open>validateWorkflow\<close> is a value that is no object, or the address of the
  caller's object. \<open>JSON.parse(JSON.stringify(workflowJson))\<close> allocates a new
  object with the same content, which shares nothing with the original. A pass
  that is given an address reads the object there, and writes what it makes of it
  back to the same address. (After an exception the copy is unreachable; what a
  pass had written to it before raising is not modelled.)
\<close>

datatype argument = Primitive | Reference nat

type_synonym store = "rawWorkflow list"

definition toRaw :: "workflow \<Rightarrow> rawWorkflow" where
  "toRaw w = \<lparr>rawName = wname w, rawNodes = Some (map NodeObject (nodes w)),
              rawConnections = connections w\<rparr>"

fun nodeObjects :: "rawNode list \<Rightarrow> node list" where
  "nodeObjects [] = []"
| "nodeObjects (NotANode # rest) = nodeObjects rest"
| "nodeObjects (NodeObject n # rest) = n # nodeObjects rest"

definition ofRaw :: "rawWorkflow \<Rightarrow> workflow" where
  "ofRaw raw = \<lparr>wname = rawName raw,
                nodes = nodeObjects (case rawNodes raw of None \<Rightarrow> [] | Some rns \<Rightarrow> rns),
                connections = rawConnections raw\<rparr>"

definition inPlace :: "nat \<Rightarrow> (workflow \<Rightarrow> workflow \<times> 'r) \<Rightarrow> store \<Rightarrow> 'r \<times> store" where
  "inPlace c pass s = (let r = pass (ofRaw (s ! c)) in (snd r, s[c := toRaw (fst r)]))"

definition inPlaceE :: "nat \<Rightarrow> (workflow \<Rightarrow> exn + (workflow \<times> 'r)) \<Rightarrow> store \<Rightarrow> (exn + 'r) \<times> store" where
  "inPlaceE c pass s =
     (case pass (ofRaw (s ! c)) of
        Inl e \<Rightarrow> (Inl e, s)
      | Inr r \<Rightarrow> (Inr (snd r), s[c := toRaw (fst r)]))"

record fixResultAt =
  fixedAt :: bool
  copyAt :: nat
  fixListAt :: "fixMsg list"
  fixWarningsAt :: "issue list"

text \<open>\<open>applyAutoFixes\<close>, line 1510 on: the copy is allocated at the end of the store,
  and every pass is given the address of the copy.\<close>

definition applyAutoFixesAt :: "(nat \<Rightarrow> string) \<Rightarrow> nat \<Rightarrow> store \<Rightarrow> (exn + fixResultAt) \<times> store" where
  "applyAutoFixesAt uuid a s =
     (let c = length s;
          s0 = s @ [s ! a];
          p = inPlace c (structuralFixes uuid) s0;
          q = inPlaceE c firstPasses (snd p)
      in case fst q of
           Inl e \<Rightarrow> (Inl e, snd q)
         | Inr x \<Rightarrow>
             (let r = inPlaceE c lastPasses (snd q)
              in case fst r of
                   Inl e \<Rightarrow> (Inl e, snd r)
                 | Inr y \<Rightarrow>
                     (Inr \<lparr>fixedAt = (fst p @ fst x @ y \<noteq> []), copyAt = c,
                           fixListAt = fst p @ fst x @ y, fixWarningsAt = snd x\<rparr>,
                      snd r)))"

record validationResultAt =
  validAt :: bool
  errorsAt :: "issue list"
  warningsAt :: "issue list"
  fixMessagesAt :: "fixMsg list"
  autofixedAt :: bool
  normalizedAt :: "nat option"

definition failureAt :: "issue list \<Rightarrow> issue list \<Rightarrow> validationResultAt" where
  "failureAt errs warns =
     \<lparr>validAt = False, errorsAt = errs, warningsAt = warns, fixMessagesAt = [],
      autofixedAt = False, normalizedAt = None\<rparr>"

text \<open>STEP 1 to STEP 5 again, on the object at address \<open>a\<close>, whose content is \<open>w\<close>.\<close>

definition checkAndFixAt :: "(nat \<Rightarrow> string) \<Rightarrow> issue list \<Rightarrow> nat \<Rightarrow> workflow \<Rightarrow> bool \<Rightarrow> store
                             \<Rightarrow> validationResultAt \<times> store" where
  "checkAndFixAt uuid schemaErrors a w autofix s =
     (if nodes w = [] then (failureAt [MustHaveOneNode] [], s)
      else
        (let conn = (case connections w of
                       None \<Rightarrow> ([], [])
                     | Some cs \<Rightarrow> validateConnections (nodes w) cs);
             errors0 = schemaErrors @
                       (if \<not> distinct (map name (nodes w)) then [DuplicateNames] else []) @
                       concat (map nodeErrors (nodes w)) @ fst conn;
             warnings0 = snd conn
         in if \<not> autofix
            then (\<lparr>validAt = (errors0 = []), errorsAt = errors0, warningsAt = warnings0,
                   fixMessagesAt = [], autofixedAt = False, normalizedAt = Some a\<rparr>, s)
            else (let f = applyAutoFixesAt uuid a s
                  in case fst f of
                       Inl e \<Rightarrow> (failureAt [Thrown (case e of TypeError \<Rightarrow> ''TypeError'')] [], snd f)
                     | Inr r \<Rightarrow>
                         (let postFixErrors =
                                (if \<not> distinct (map name (nodes (ofRaw (snd f ! copyAt r))))
                                 then [DuplicateNamesAfterFix] else []);
                              errors1 = (if fixedAt r \<and> postFixErrors = [] then []
                                         else errors0 @ postFixErrors)
                          in (\<lparr>validAt = (errors1 = []), errorsAt = errors1,
                               warningsAt = warnings0 @ fixWarningsAt r,
                               fixMessagesAt = fixListAt r, autofixedAt = fixedAt r,
                               normalizedAt = Some (if fixedAt r then copyAt r else a)\<rparr>,
                              snd f)))))"

definition validateWorkflowAt :: "(nat \<Rightarrow> string) \<Rightarrow> issue list \<Rightarrow> argument \<Rightarrow> bool \<Rightarrow> store
                                  \<Rightarrow> validationResultAt \<times> store" where
  "validateWorkflowAt uuid schemaErrors workflowJson autofix s =
     (case workflowJson of
        Primitive \<Rightarrow> (failureAt [InvalidFormat] [], s)
      | Reference a \<Rightarrow>
          (case rawNodes (s ! a) of
             None \<Rightarrow> (failureAt [MustHaveNodesArray] [], s)
           | Some rns \<Rightarrow>
               (case scanNodes 0 rns [] of
                  Inl errs \<Rightarrow> (failureAt errs [], s)
                | Inr r \<Rightarrow>
                    (if snd r \<noteq> [] then (failureAt (malformedBanner @ snd r) [], s)
                     else checkAndFixAt uuid schemaErrors a
                            \<lparr>wname = rawName (s ! a), nodes = fst r,
                             connections = rawConnections (s ! a)\<rparr>
                            autofix s))))"

section \<open>Notions the properties are stated with\<close>

text \<open>The keys \<open>validateConnections\<close> counts: one for every edge whose source and target
  are both names of steps, in document order.\<close>

definition validPairKeys :: "node list \<Rightarrow> connections \<Rightarrow> string list" where
  "validPairKeys ns cs =
     map (\<lambda>e. pairKey (fst e) (cnode (snd (snd e))))
       (filter (\<lambda>e. validName ns (fst e) \<and> validName ns (cnode (snd (snd e)))) (allEdges cs))"

definition isDuplicateWarning :: "issue \<Rightarrow> bool" where
  "isDuplicateWarning x = (case x of DuplicateConnection k c \<Rightarrow> True | _ \<Rightarrow> False)"

text \<open>What a run of the pipeline leaves: the steps' names and types, the edges, the
  messages.\<close>

definition kindsOf :: "workflow \<Rightarrow> (string option \<times> string option) list" where
  "kindsOf w = map (\<lambda>n. (name n, ntype n)) (nodes w)"

definition edgesOf :: "workflow \<Rightarrow> (string \<times> string \<times> conn) list" where
  "edgesOf w = allEdges (case connections w of None \<Rightarrow> [] | Some cs \<Rightarrow> cs)"

definition outcome :: "exn + fixResult
    \<Rightarrow> exn + ((string option \<times> string option) list \<times> (string \<times> string \<times> conn) list \<times> fixMsg list)" where
  "outcome r = (case r of
                  Inl e \<Rightarrow> Inl e
                | Inr v \<Rightarrow> Inr (kindsOf (fixedWorkflow v), edgesOf (fixedWorkflow v), fixList v))"

text \<open>
  Every edge stored under the port kind \<open>ai_tool\<close> has target index 0 or no
  property \<open>index\<close> at all.
\<close>

definition toolSlotsNormal :: "nodeConns \<Rightarrow> bool" where
  "toolSlotsNormal ports =
     (case map_of ports ''ai_tool'' of
        None \<Rightarrow> True
      | Some outs \<Rightarrow> list_all (\<lambda>c. cindex c = None \<or> cindex c = Some 0) (concat outs))"

definition toolIndexesNormal :: "workflow \<Rightarrow> bool" where
  "toolIndexesNormal w =
     list_all (\<lambda>e. toolSlotsNormal (snd e)) (case connections w of None \<Rightarrow> [] | Some cs \<Rightarrow> cs)"

text \<open>
  No source that names a step which is not tool-capable (neither a LangChain tool
  nor a service tool) has outputs of port kind \<open>ai_tool\<close>.
\<close>

definition toolSourcesAllowed :: "workflow \<Rightarrow> bool" where
  "toolSourcesAllowed w =
     list_all (\<lambda>e. case nodeTypeMap (nodes w) (fst e) of
                     None \<Rightarrow> True
                   | Some sourceType \<Rightarrow>
                       map_of (snd e) ''ai_tool'' = None \<or> isAllowedToolNode sourceType)
       (case connections w of None \<Rightarrow> [] | Some cs \<Rightarrow> cs)"

text \<open>
  For the depth loop: the keys an edge can write to, the bound every stored depth
  keeps, and the quantity that falls with every iteration (the room left below
  \<open>2 ^ 53\<close> over those keys, plus the length of the queue).
\<close>

definition targetKeys :: "connections \<Rightarrow> string option set" where
  "targetKeys cs = (\<lambda>e. Some (cnode (snd (snd e)))) ` set (allEdges cs)"

definition depthsBounded :: "depthState \<Rightarrow> bool" where
  "depthsBounded st = list_all (\<lambda>kv. snd kv \<le> 2 ^ 53) (depths st)"

definition slack :: "connections \<Rightarrow> depthState \<Rightarrow> nat" where
  "slack cs st = (\<Sum>k \<in> targetKeys cs. 2 ^ 53 - depthOf (depths st) k) + length (queue st)"

text \<open>The pipeline run again on the workflow it produced.\<close>

definition runTwice :: "(nat \<Rightarrow> string) \<Rightarrow> workflow \<Rightarrow> exn + fixResult" where
  "runTwice uuid w =
     (case applyAutoFixes uuid w of
        Inl e \<Rightarrow> Inl e
      | Inr r \<Rightarrow> applyAutoFixes uuid (fixedWorkflow r))"

text \<open>
  A report that holds an address and a store say the same as a report that holds
  a workflow: the fields agree, and the address leads to that workflow.
\<close>

definition sameReport :: "validationResultAt \<times> store \<Rightarrow> validationResult \<Rightarrow> bool" where
  "sameReport p res =
     (validAt (fst p) = valid res \<and> errorsAt (fst p) = errors res \<and>
      warningsAt (fst p) = warnings res \<and> fixMessagesAt (fst p) = fixMessages res \<and>
      autofixedAt (fst p) = autofixed res \<and>
      map_option (\<lambda>b. ofRaw (snd p ! b)) (normalizedAt (fst p)) = normalized res)"

section \<open>Concrete workflows\<close>

definition step :: "string \<Rightarrow> string \<Rightarrow> node" where
  "step nm ty = \<lparr>nid = Some (''id-'' @ nm), name = Some nm, ntype = Some ty,
                 position = Some [0, 0], parameters = Some (JObj []), credentials = None\<rparr>"

definition mainEdge :: "string \<Rightarrow> conn" where
  "mainEdge target = \<lparr>cnode = target, ctype = ''main'', cindex = Some 0\<rparr>"

definition toolEdge :: "string \<Rightarrow> conn" where
  "toolEdge target = \<lparr>cnode = target, ctype = ''ai_tool'', cindex = Some 0\<rparr>"

definition ids :: "nat \<Rightarrow> string" where
  "ids i = ''uuid-'' @ show_nat i"

text \<open>Scenario B: one step named "Node1", no edge, no agent.\<close>

definition scenarioB :: input where
  "scenarioB = WorkflowObject
     \<lparr>rawName = Some ''Flow'',
      rawNodes = Some [NodeObject (step ''Node1'' ''n8n-nodes-base.httpRequest'')],
      rawConnections = Some []\<rparr>"

text \<open>Scenario B after the repair.\<close>

definition repairedB :: workflow where
  "repairedB = \<lparr>wname = Some ''Flow'',
      nodes = [(step ''Node1'' ''n8n-nodes-base.httpRequest'')\<lparr>name := Some ''HTTP Request''\<rparr>],
      connections = Some []\<rparr>"

text \<open>A trigger with one edge to a step that has a placeholder name.\<close>

definition renamedTarget :: workflow where
  "renamedTarget =
     \<lparr>wname = Some ''Flow'',
      nodes = [step ''Start'' ''n8n-nodes-base.manualTrigger'',
               step ''Node1'' ''n8n-nodes-base.httpRequest''],
      connections = Some [(''Start'', [(''main'', [[mainEdge ''Node1'']])])]\<rparr>"

text \<open>A trigger, then a step that loops back to itself.\<close>

definition loopWorkflow :: workflow where
  "loopWorkflow =
     \<lparr>wname = Some ''Flow'',
      nodes = [step ''Start'' ''n8n-nodes-base.manualTrigger'',
               step ''Poll'' ''n8n-nodes-base.httpRequest''],
      connections = Some [(''Start'', [(''main'', [[mainEdge ''Poll'']])]),
                          (''Poll'', [(''main'', [[mainEdge ''Poll'']])])]\<rparr>"

text \<open>
  A deprecated model step and a calculator tool, each with an \<open>ai_tool\<close> edge to a
  step that only sets data.
\<close>

definition toolToData :: workflow where
  "toolToData =
     \<lparr>wname = Some ''Flow'',
      nodes = [step ''GPT'' ''@n8n/n8n-nodes-langchain.openAi'',
               step ''Calc'' ''@n8n/n8n-nodes-langchain.toolCalculator'',
               step ''Data'' ''n8n-nodes-base.set''],
      connections = Some [(''GPT'', [(''ai_tool'', [[toolEdge ''Data'']])]),
                          (''Calc'', [(''ai_tool'', [[toolEdge ''Data'']])])]\<rparr>"

text \<open>An agent and two steps that nothing connects.\<close>

definition agentAndTwo :: workflow where
  "agentAndTwo =
     \<lparr>wname = Some ''Flow'',
      nodes = [step ''Agent'' ''@n8n/n8n-nodes-langchain.agent'',
               step ''A'' ''n8n-nodes-base.set'',
               step ''B'' ''n8n-nodes-base.set''],
      connections = Some []\<rparr>"

text \<open>
  Scenario D: ten action steps in a chain; step 3 has a second edge, to step 7.
\<close>

definition scenarioD :: workflow where
  "scenarioD =
     \<lparr>wname = Some ''Flow'',
      nodes = map (\<lambda>k. step (''Step '' @ show_nat k) ''n8n-nodes-base.set'') [1 ..< 11],
      connections = Some
        [(''Step 1'', [(''main'', [[mainEdge ''Step 2'']])]),
         (''Step 2'', [(''main'', [[mainEdge ''Step 3'']])]),
         (''Step 3'', [(''main'', [[mainEdge ''Step 4'', mainEdge ''Step 7'']])]),
         (''Step 4'', [(''main'', [[mainEdge ''Step 5'']])]),
         (''Step 5'', [(''main'', [[mainEdge ''Step 6'']])]),
         (''Step 6'', [(''main'', [[mainEdge ''Step 7'']])]),
         (''Step 7'', [(''main'', [[mainEdge ''Step 8'']])]),
         (''Step 8'', [(''main'', [[mainEdge ''Step 9'']])]),
         (''Step 9'', [(''main'', [[mainEdge ''Step 10'']])])]\<rparr>"

text \<open>A step that is no conditional, with two edges on its second output slot.\<close>

definition secondSlot :: workflow where
  "secondSlot =
     \<lparr>wname = Some ''Flow'',
      nodes = [step ''A'' ''n8n-nodes-base.set'', step ''B'' ''n8n-nodes-base.set'',
               step ''C'' ''n8n-nodes-base.set'', step ''D'' ''n8n-nodes-base.set''],
      connections = Some
        [(''A'', [(''main'', [[mainEdge ''B''], [mainEdge ''C'', mainEdge ''D'']])])]\<rparr>"

text \<open>A chat model whose parameter \<open>modelId\<close> holds a model name.\<close>

definition modelIdStep :: node where
  "modelIdStep = (step ''LLM'' ''@n8n/n8n-nodes-langchain.lmChatOpenAi'')
     \<lparr>parameters := Some (JObj [(''modelId'', JStr ''gpt-4'')])\<rparr>"

text \<open>Two edges from A to B that differ in port kind.\<close>

definition twoKinds :: connections where
  "twoKinds = [(''A'', [(''main'', [[mainEdge ''B'']]), (''ai_tool'', [[toolEdge ''B'']])])]"

definition twoSteps :: "node list" where
  "twoSteps = [step ''A'' ''@n8n/n8n-nodes-langchain.toolCalculator'',
               step ''B'' ''@n8n/n8n-nodes-langchain.agent'']"

definition modelIdFlow :: workflow where
  "modelIdFlow = \<lparr>wname = Some ''Flow'', nodes = [modelIdStep], connections = Some []\<rparr>"

text \<open>A chat model with a model name under \<open>model\<close> and one more parameter.\<close>

definition modelFlow :: workflow where
  "modelFlow = \<lparr>wname = Some ''Flow'',
     nodes = [(step ''LLM'' ''@n8n/n8n-nodes-langchain.lmChatOpenAi'')
                \<lparr>parameters := Some (JObj [(''model'', JStr ''GPT-4o-mini''),
                                            (''temperature'', JNum 1)])\<rparr>],
     connections = Some []\<rparr>"

text \<open>A calculator tool wired to an agent with target index 3.\<close>

definition toolIndexThree :: workflow where
  "toolIndexThree =
     \<lparr>wname = Some ''Flow'',
      nodes = [step ''Agent'' ''@n8n/n8n-nodes-langchain.agent'',
               step ''Calc'' ''@n8n/n8n-nodes-langchain.toolCalculator''],
      connections = Some
        [(''Calc'', [(''ai_tool'', [[\<lparr>cnode = ''Agent'', ctype = ''ai_tool'', cindex = Some 3\<rparr>]])])]\<rparr>"

text \<open>The same tool and agent, the edge without the property \<open>index\<close>.\<close>

definition toolNoIndex :: workflow where
  "toolNoIndex =
     \<lparr>wname = Some ''Flow'',
      nodes = [step ''Agent'' ''@n8n/n8n-nodes-langchain.agent'',
               step ''Calc'' ''@n8n/n8n-nodes-langchain.toolCalculator''],
      connections = Some
        [(''Calc'', [(''ai_tool'', [[\<lparr>cnode = ''Agent'', ctype = ''ai_tool'', cindex = None\<rparr>]])])]\<rparr>"

text \<open>A step that only sets data, wired to an agent both as data and as a tool.\<close>

definition dataAsTool :: workflow where
  "dataAsTool =
     \<lparr>wname = Some ''Flow'',
      nodes = [step ''Agent'' ''@n8n/n8n-nodes-langchain.agent'',
               step ''Data'' ''n8n-nodes-base.set''],
      connections = Some
        [(''Data'', [(''main'', [[mainEdge ''Agent'']]), (''ai_tool'', [[toolEdge ''Agent'']])])]\<rparr>"

text \<open>The states of the depth loop on \<open>loopWorkflow\<close> once "Poll" is in the queue.\<close>

definition loopEdges :: connections where
  "loopEdges = [(''Start'', [(''main'', [[mainEdge ''Poll'']])]),
                (''Poll'', [(''main'', [[mainEdge ''Poll'']])])]"

definition pollState :: "nat \<Rightarrow> depthState" where
  "pollState d = \<lparr>depths = [(Some ''Start'', 0), (Some ''Poll'', d)], queue = [Some ''Poll''],
                  maxDepth = d\<rparr>"

section \<open>Facts about objects\<close>

lemma map_of_objSet: "map_of (objSet k v m) k' = (if k' = k then Some v else map_of m k')"
  by (induction m) auto

lemma map_of_objDelete: "map_of (objDelete k m) k' = (if k' = k then None else map_of m k')"
  by (induction m) (auto simp: objDelete_def)

lemma objSet_twice: "objSet k v (objSet k v' m) = objSet k v m"
  by (induction m) auto

lemma map_fst_objSet_present: "map_of m k \<noteq> None \<Longrightarrow> map fst (objSet k v m) = map fst m"
  by (induction m) auto

lemma keys_objSet: "fst ` set (objSet k v m) = insert k (fst ` set m)"
  by (induction m) force+

lemma distinct_objSet: "distinct (map fst m) \<Longrightarrow> distinct (map fst (objSet k v m))"
  by (induction m) (force simp: keys_objSet)+

lemma list_all_objSet:
  "list_all P m \<Longrightarrow> P (k, v) \<Longrightarrow> list_all P (objSet k v m)"
  by (induction m) auto

lemma list_all_lookup: "list_all P m \<Longrightarrow> map_of m k = Some v \<Longrightarrow> P (k, v)"
  by (induction m) (auto split: if_splits)

section \<open>Properties of validateWorkflow\<close>

lemma scanNodes_Inl_nonempty: "scanNodes i rns errs = Inl es \<Longrightarrow> es \<noteq> []"
proof (induction i rns errs rule: scanNodes.induct)
  case (1 i errs)
  then show ?case by simp
next
  case (2 i rest errs)
  then show ?case by auto
next
  case (3 i n rest errs)
  then show ?case by (auto split: if_splits sum.splits)
qed

lemma failure_fields:
  "valid (failure es ws) = False" "errors (failure es ws) = es"
  by (simp_all add: failure_def)

lemma checkAndFix_valid_iff:
  "valid (checkAndFix uuid schemaErrors w autofix) =
     (errors (checkAndFix uuid schemaErrors w autofix) = [])"
  by (simp add: checkAndFix_def failure_def Let_def split: option.splits sum.splits exn.splits)

text \<open>
  C10: in every result of \<open>validateWorkflow\<close> the flag \<open>valid\<close> is true exactly when
  the list \<open>errors\<close> is empty. The statement has no side condition: it covers the
  input that is not an object, the missing \<open>nodes\<close> array, the two immediate returns
  of the malformed-input scan, the banner return, the empty workflow, the \<open>catch\<close>
  block, and the final return with and without autofix.
\<close>

theorem validateWorkflow_valid_iff_no_errors:
  "valid (validateWorkflow uuid schemaErrors workflowJson autofix) =
     (errors (validateWorkflow uuid schemaErrors workflowJson autofix) = [])"
proof (cases workflowJson)
  case NotAnObject
  then show ?thesis by (simp add: validateWorkflow_def failure_fields)
next
  case (WorkflowObject raw)
  show ?thesis
  proof (cases "rawNodes raw")
    case None
    with WorkflowObject show ?thesis by (simp add: validateWorkflow_def failure_fields)
  next
    case (Some rns)
    show ?thesis
    proof (cases "scanNodes 0 rns []")
      case (Inl es)
      then have "es \<noteq> []" by (rule scanNodes_Inl_nonempty)
      with WorkflowObject Some Inl show ?thesis
        by (simp add: validateWorkflow_def failure_fields)
    next
      case (Inr r)
      with WorkflowObject Some show ?thesis
        by (simp add: validateWorkflow_def failure_fields malformedBanner_def
            checkAndFix_valid_iff)
    qed
  qed
qed

text \<open>
  C1 (the code departs from the claim): a single step named "Node1", no edge, no
  agent. Without autofix the errors are the generic name and the hanging step.
  With autofix one fix is made (the rename), and the result says \<open>autofixed\<close> and
  \<open>valid\<close> with no error at all, whatever the schema check reported: after the
  repair only duplicate names are checked again, and with none the error list is
  emptied. The repaired workflow still has the hanging step, as
  \<open>validateConnections\<close> on it shows.
\<close>

theorem scenarioB_reported_valid:
  "errors (validateWorkflow uuid [] scenarioB False) =
     [GenericName ''Node1'', HangingNode (Some ''Node1'')] \<and>
   validateWorkflow uuid schemaErrors scenarioB True =
     \<lparr>valid = True, errors = [], warnings = [],
      fixMessages = [RenamedGeneric ''Node1'' ''HTTP Request''],
      autofixed = True, normalized = Some repairedB\<rparr> \<and>
   fst (validateConnections (nodes repairedB) []) = [HangingNode (Some ''HTTP Request'')]"
  by code_simp

section \<open>Renaming and the edges\<close>

text \<open>
  C2 (the code departs from the claim): a trigger "Start" with one edge to the
  step "Node1". The loop over the steps in \<open>applyAutoFixes\<close> renames "Node1" to
  "HTTP Request" and leaves the adjacency as it is; the removal of invalid
  connections then deletes the edge, whose target is no step any more. One edge
  before, none after. \<open>ensureDescriptiveNames\<close>, given the same workflow, rewrites
  the edge to the new name; in the pipeline it runs after the loop has renamed
  every placeholder name.
\<close>

theorem rename_drops_edge:
  "edgesOf renamedTarget = [(''Start'', ''main'', mainEdge ''Node1'')] \<and>
   outcome (applyAutoFixes uuid renamedTarget) =
     Inr ([(Some ''Start'', Some ''n8n-nodes-base.manualTrigger''),
           (Some ''HTTP Request'', Some ''n8n-nodes-base.httpRequest'')],
          [],
          [RenamedGeneric ''Node1'' ''HTTP Request'',
           RemovedConnectionToNonexistent ''Start'' ''Node1'']) \<and>
   edgesOf (fst (ensureDescriptiveNames renamedTarget)) =
     [(''Start'', ''main'', mainEdge ''HTTP Request'')]"
  by code_simp

section \<open>The depth loop returns\<close>

lemma map_of_mapSet: "map_of (mapSet k v m) k' = (if k' = k then Some v else map_of m k')"
  by (induction m) auto

lemma depthOf_mapSet: "depthOf (mapSet k v ds) k' = (if k' = k then v else depthOf ds k')"
  by (simp add: depthOf_def map_of_mapSet)

lemma finite_targetKeys: "finite (targetKeys cs)"
  by (simp add: targetKeys_def)

lemma jsSucc_le: "d \<le> 2 ^ 53 \<Longrightarrow> jsSucc d \<le> 2 ^ 53"
  by (simp add: jsSucc_def)

lemma relaxEdge_depths_mono: "depthOf (depths st) k \<le> depthOf (depths (relaxEdge d c st)) k"
  by (simp add: relaxEdge_def Let_def depthOf_mapSet)

lemma list_all_mapSet: "list_all P m \<Longrightarrow> P (k, v) \<Longrightarrow> list_all P (mapSet k v m)"
  by (induction m) auto

lemma depthOf_bounded:
  assumes "depthsBounded st"
  shows "depthOf (depths st) k \<le> 2 ^ 53"
proof (cases "map_of (depths st) k")
  case None
  then show ?thesis by (simp add: depthOf_def)
next
  case (Some d)
  from assms have "list_all (\<lambda>kv. snd kv \<le> 2 ^ 53) (depths st)"
    by (simp add: depthsBounded_def)
  from list_all_lookup [OF this Some] Some show ?thesis by (simp add: depthOf_def)
qed

lemma relaxEdge_bounded:
  "d \<le> 2 ^ 53 \<Longrightarrow> depthsBounded st \<Longrightarrow> depthsBounded (relaxEdge d c st)"
  using jsSucc_le [of d] by (simp add: relaxEdge_def Let_def depthsBounded_def list_all_mapSet)

lemma sum_raise:
  fixes f g :: "'a \<Rightarrow> nat"
  assumes "finite S" and "k \<in> S" and "g k < f k" and "\<And>x. x \<noteq> k \<Longrightarrow> g x = f x"
  shows "sum g S < sum f S"
proof -
  have "sum g S = g k + sum g (S - {k})" using assms(1,2) by (rule sum.remove)
  also have "sum g (S - {k}) = sum f (S - {k})" using assms(4) by (intro sum.cong) auto
  also have "g k + sum f (S - {k}) < f k + sum f (S - {k})" using assms(3) by simp
  also have "f k + sum f (S - {k}) = sum f S" using assms(1,2) by (rule sum.remove [symmetric])
  finally show ?thesis .
qed

lemma relaxEdge_slack:
  assumes "d \<le> 2 ^ 53" and "depthsBounded st" and "Some (cnode c) \<in> targetKeys cs"
  shows "slack cs (relaxEdge d c st) \<le> slack cs st"
proof (cases "depthOf (depths st) (Some (cnode c)) < jsSucc d")
  case False
  then show ?thesis by (simp add: relaxEdge_def Let_def)
next
  case True
  let ?k = "Some (cnode c)"
  let ?f = "\<lambda>k. 2 ^ 53 - depthOf (depths st) k"
  let ?g = "\<lambda>k. 2 ^ 53 - depthOf (mapSet ?k (jsSucc d) (depths st)) k"
  have "jsSucc d \<le> 2 ^ 53" using assms(1) by (rule jsSucc_le)
  with True have "?g ?k < ?f ?k" by (simp add: depthOf_mapSet)
  moreover have "\<And>x. x \<noteq> ?k \<Longrightarrow> ?g x = ?f x" by (simp add: depthOf_mapSet)
  ultimately have "sum ?g (targetKeys cs) < sum ?f (targetKeys cs)"
    using finite_targetKeys assms(3) by (intro sum_raise [where k = ?k]) auto
  with True show ?thesis by (simp add: relaxEdge_def Let_def slack_def)
qed

lemma fold_relaxEdge:
  assumes "d \<le> 2 ^ 53"
  shows "depthsBounded st \<Longrightarrow> \<forall>kc \<in> set es. Some (cnode (snd kc)) \<in> targetKeys cs \<Longrightarrow>
         depthsBounded (fold (\<lambda>kc. relaxEdge d (snd kc)) es st) \<and>
         slack cs (fold (\<lambda>kc. relaxEdge d (snd kc)) es st) \<le> slack cs st"
proof (induction es arbitrary: st)
  case Nil
  then show ?case by simp
next
  case (Cons e es)
  have b: "depthsBounded (relaxEdge d (snd e) st)"
    using assms Cons.prems(1) by (rule relaxEdge_bounded)
  have s: "slack cs (relaxEdge d (snd e) st) \<le> slack cs st"
    using assms Cons.prems by (intro relaxEdge_slack) auto
  from Cons.IH [OF b] Cons.prems(2) s show ?case by fastforce
qed

lemma port_targets:
  "map_of cs src = Some ports \<Longrightarrow> kc \<in> set (portEdges ports) \<Longrightarrow>
   Some (cnode (snd kc)) \<in> targetKeys cs"
  by (force simp: targetKeys_def allEdges_def dest: map_of_SomeD)

lemma depthStep_decreases:
  assumes "depthsBounded st"
  shows "depthsBounded (depthStep cs k rest (st\<lparr>queue := k # rest\<rparr>)) \<and>
         slack cs (depthStep cs k rest (st\<lparr>queue := k # rest\<rparr>)) <
           slack cs (st\<lparr>queue := k # rest\<rparr>)"
proof (cases "map_of cs (keyOf k)")
  case None
  then show ?thesis using assms by (simp add: depthStep_def depthsBounded_def slack_def)
next
  case (Some ports)
  let ?st = "st\<lparr>queue := rest\<rparr>"
  have d: "depthOf (depths st) k \<le> 2 ^ 53" using assms by (rule depthOf_bounded)
  have b: "depthsBounded ?st" using assms by (simp add: depthsBounded_def)
  have t: "\<forall>kc \<in> set (portEdges ports). Some (cnode (snd kc)) \<in> targetKeys cs"
    using Some by (auto intro: port_targets)
  from fold_relaxEdge [OF d b t]
  have "depthsBounded (fold (\<lambda>kc. relaxEdge (depthOf (depths st) k) (snd kc)) (portEdges ports) ?st)"
    and "slack cs (fold (\<lambda>kc. relaxEdge (depthOf (depths st) k) (snd kc)) (portEdges ports) ?st)
           \<le> slack cs ?st"
    by simp_all
  moreover have "slack cs ?st < slack cs (st\<lparr>queue := k # rest\<rparr>)" by (simp add: slack_def)
  ultimately show ?thesis using Some by (simp add: depthStep_def)
qed

lemma depthLoop_returns:
  "depthsBounded st \<Longrightarrow> slack cs st < fuel \<Longrightarrow> \<exists>r. depthLoop fuel cs st = Some r"
proof (induction fuel arbitrary: st)
  case 0
  then show ?case by simp
next
  case (Suc fuel)
  show ?case
  proof (cases "queue st")
    case Nil
    then show ?thesis by simp
  next
    case (Cons k rest)
    then have st: "st\<lparr>queue := k # rest\<rparr> = st" by simp
    from depthStep_decreases [OF Suc.prems(1), of cs k rest] st
    have b: "depthsBounded (depthStep cs k rest st)"
      and s: "slack cs (depthStep cs k rest st) < slack cs st" by simp_all
    from s Suc.prems(2) have "slack cs (depthStep cs k rest st) < fuel" by simp
    from Suc.IH [OF b this] Cons show ?thesis by simp
  qed
qed

lemma fold_relaxEdge_mono:
  "depthOf (depths st) x \<le> depthOf (depths (fold (\<lambda>kc. relaxEdge d (snd kc)) es st)) x"
proof (induction es arbitrary: st)
  case Nil
  show ?case by simp
next
  case (Cons e es)
  have "depthOf (depths st) x \<le> depthOf (depths (relaxEdge d (snd e) st)) x"
    by (rule relaxEdge_depths_mono)
  also have "\<dots> \<le> depthOf (depths (fold (\<lambda>kc. relaxEdge d (snd kc)) es (relaxEdge d (snd e) st))) x"
    by (rule Cons.IH)
  finally show ?case by simp
qed

lemma depthStep_depths_mono:
  "depthOf (depths st) x \<le> depthOf (depths (depthStep cs k rest st)) x"
proof (cases "map_of cs (keyOf k)")
  case None
  then show ?thesis by (simp add: depthStep_def)
next
  case (Some ports)
  from fold_relaxEdge_mono [of "st\<lparr>queue := rest\<rparr>" x "depthOf (depths st) k" "portEdges ports"]
  show ?thesis using Some by (simp add: depthStep_def)
qed

text \<open>
  C3: on every workflow \<open>calculateWorkflowDepth\<close> returns (a depth, or the
  exception of a step without a type or of a missing adjacency): some number of
  iterations is enough. No iteration lowers the depth stored for a step; a depth
  is raised only to a value that is at most \<open>2 ^ 53\<close>, where adding 1 no longer
  changes a number, so over the finitely many targets of the edges only finitely
  many raises are possible, and every iteration takes one step off the queue.
  Nothing is assumed about cycles.
\<close>

theorem calculateWorkflowDepth_returns:
  "(\<exists>fuel r. calculateWorkflowDepth fuel w = Some r) \<and>
   depthOf (depths st) x \<le> depthOf (depths (depthStep cs k rest st)) x"
proof -
  have "\<exists>fuel r. calculateWorkflowDepth fuel w = Some r"
  proof (cases "findTrigger (nodes w)")
    case (Inl e)
    then show ?thesis by (simp add: calculateWorkflowDepth_def)
  next
    case (Inr found)
    show ?thesis
    proof (cases found)
      case None
      with Inr show ?thesis by (simp add: calculateWorkflowDepth_def)
    next
      case (Some trigger)
      show ?thesis
      proof (cases "connections w")
        case None
        with Inr Some have "calculateWorkflowDepth (Suc 0) w = Some (Inl TypeError)"
          by (simp add: calculateWorkflowDepth_def)
        then show ?thesis by blast
      next
        case cs: (Some cs)
        let ?st = "\<lparr>depths = [(name trigger, 0)], queue = [name trigger], maxDepth = 0\<rparr>"
        have "depthsBounded ?st" by (simp add: depthsBounded_def)
        then obtain r where "depthLoop (Suc (slack cs ?st)) cs ?st = Some r"
          using depthLoop_returns [of ?st cs "Suc (slack cs ?st)"] by auto
        with Inr Some cs have "calculateWorkflowDepth (Suc (slack cs ?st)) w = Some (Inr r)"
          by (simp add: calculateWorkflowDepth_def)
        then show ?thesis by blast
      qed
    qed
  qed
  then show ?thesis by (simp add: depthStep_depths_mono)
qed


text \<open>More iterations than needed change nothing.\<close>

lemma depthLoop_more_fuel:
  "depthLoop fuel cs st = Some r \<Longrightarrow> depthLoop (fuel + extra) cs st = Some r"
proof (induction fuel arbitrary: st)
  case 0
  then show ?case by simp
next
  case (Suc fuel)
  then show ?case by (cases "queue st") simp_all
qed

text \<open>
  What the return costs on a cycle: a trigger followed by a step with an edge to
  itself. Every iteration raises the depth of that step by one and puts it back on
  the queue, until the depth is \<open>2 ^ 53\<close>; the function returns \<open>2 ^ 53\<close> after
  \<open>2 ^ 53 + 1\<close> iterations and not before.
\<close>

lemma poll_step:
  "d < 2 ^ 53 \<Longrightarrow> depthStep loopEdges (Some ''Poll'') [] (pollState d) = pollState (Suc d)"
  by (simp add: depthStep_def loopEdges_def pollState_def portEdges_def relaxEdge_def
      depthOf_def jsSucc_def mainEdge_def)

lemma poll_last_step:
  "depthStep loopEdges (Some ''Poll'') [] (pollState (2 ^ 53)) = (pollState (2 ^ 53))\<lparr>queue := []\<rparr>"
  by (simp add: depthStep_def loopEdges_def pollState_def portEdges_def relaxEdge_def
      depthOf_def jsSucc_def mainEdge_def)

lemma poll_never_done:
  "d + fuel \<le> 2 ^ 53 \<Longrightarrow> depthLoop fuel loopEdges (pollState d) = None"
proof (induction fuel arbitrary: d)
  case 0
  show ?case by simp
next
  case (Suc fuel)
  from Suc.prems have small: "d < 2 ^ 53" and rest: "Suc d + fuel \<le> 2 ^ 53" by simp_all
  have "depthLoop (Suc fuel) loopEdges (pollState d) =
        depthLoop fuel loopEdges (depthStep loopEdges (Some ''Poll'') [] (pollState d))"
    by (simp add: pollState_def)
  also have "\<dots> = depthLoop fuel loopEdges (pollState (Suc d))"
    using small by (simp add: poll_step)
  also have "\<dots> = None" using rest by (rule Suc.IH)
  finally show ?case .
qed

lemma poll_done:
  "d + n = 2 ^ 53 \<Longrightarrow> depthLoop (n + 2) loopEdges (pollState d) = Some (2 ^ 53)"
proof (induction n arbitrary: d)
  case 0
  then have d: "d = 2 ^ 53" by simp
  have "depthLoop (Suc (Suc 0)) loopEdges (pollState (2 ^ 53)) =
        depthLoop (Suc 0) loopEdges (depthStep loopEdges (Some ''Poll'') [] (pollState (2 ^ 53)))"
    by (simp add: pollState_def)
  also have "\<dots> = Some (2 ^ 53)"
    by (simp only: poll_last_step) (simp add: pollState_def)
  finally show ?case using d by (simp add: numeral_2_eq_2)
next
  case (Suc n)
  from Suc.prems have small: "d < 2 ^ 53" and rest: "Suc d + n = 2 ^ 53" by simp_all
  have "depthLoop (Suc n + 2) loopEdges (pollState d) =
        depthLoop (n + 2) loopEdges (depthStep loopEdges (Some ''Poll'') [] (pollState d))"
    by (simp add: pollState_def)
  also have "\<dots> = depthLoop (n + 2) loopEdges (pollState (Suc d))"
    using small by (simp add: poll_step)
  also have "\<dots> = Some (2 ^ 53)" using rest by (rule Suc.IH)
  finally show ?case .
qed

lemma start_step:
  "depthStep loopEdges (Some ''Start'') []
     \<lparr>depths = [(Some ''Start'', 0)], queue = [Some ''Start''], maxDepth = 0\<rparr> = pollState 1"
  by (simp add: depthStep_def loopEdges_def pollState_def portEdges_def relaxEdge_def
      depthOf_def jsSucc_def mainEdge_def)

lemma loop_trigger:
  "findTrigger (nodes loopWorkflow) = Inr (Some (step ''Start'' ''n8n-nodes-base.manualTrigger''))"
  by (simp add: loopWorkflow_def isTriggerType_def step_def)

lemma loop_connections: "connections loopWorkflow = Some loopEdges"
  by (simp add: loopWorkflow_def loopEdges_def)

lemma loop_start:
  "calculateWorkflowDepth (Suc fuel) loopWorkflow =
     map_option Inr (depthLoop fuel loopEdges (pollState 1))"
  using start_step
  by (simp add: calculateWorkflowDepth_def loop_trigger loop_connections step_def)

lemma depth_of_cycle_cost:
  "calculateWorkflowDepth (2 ^ 53 + 2) loopWorkflow = Some (Inr (2 ^ 53)) \<and>
   (\<forall>fuel. calculateWorkflowDepth fuel loopWorkflow \<noteq> None \<longrightarrow> 2 ^ 53 < fuel)"
proof -
  have "depthLoop ((2 ^ 53 - 1) + 2) loopEdges (pollState 1) = Some (2 ^ 53)"
    by (rule poll_done) simp
  then have "calculateWorkflowDepth (Suc ((2 ^ 53 - 1) + 2)) loopWorkflow = Some (Inr (2 ^ 53))"
    by (simp only: loop_start option.map)
  then have one: "calculateWorkflowDepth (2 ^ 53 + 2) loopWorkflow = Some (Inr (2 ^ 53))"
    by simp
  have two: "2 ^ 53 < fuel" if run: "calculateWorkflowDepth fuel loopWorkflow \<noteq> None" for fuel
  proof (rule ccontr)
    assume "\<not> 2 ^ 53 < fuel"
    then have le: "fuel \<le> 2 ^ 53" by simp
    show False
    proof (cases fuel)
      case 0
      with run show False by (simp add: calculateWorkflowDepth_def loop_trigger loop_connections)
    next
      case (Suc f)
      with le have "1 + f \<le> 2 ^ 53" by simp
      then have "depthLoop f loopEdges (pollState 1) = None" by (rule poll_never_done)
      with run Suc show False by (simp add: loop_start)
    qed
  qed
  from one two show ?thesis by blast
qed

section \<open>Tool edges after the pipeline\<close>

lemma toolSlotsNormal_main: "toolSlotsNormal (objSet ''main'' v ports) = toolSlotsNormal ports"
  by (simp add: toolSlotsNormal_def map_of_objSet)

lemma cindex_zeroIndex: "cindex (zeroIndex c) = None \<or> cindex (zeroIndex c) = Some 0"
  by (cases "cindex c") (simp_all add: zeroIndex_def needsZero_def)

lemma toolSlotsNormal_normalize: "toolSlotsNormal (snd (fst (normalizeEntry e)))"
  using cindex_zeroIndex
  by (auto simp: normalizeEntry_def toolSlotsNormal_def map_of_objSet list_all_iff
      split: option.splits)

lemma normalize_zero: "toolIndexesNormal (fst (normalizeAIToolIndexes w))"
  by (cases "connections w")
    (simp_all add: toolIndexesNormal_def normalizeAIToolIndexes_def Let_def list_all_iff
      toolSlotsNormal_normalize)

lemma toolSlotsNormal_overlink:
  "toolSlotsNormal (snd e) \<Longrightarrow> toolSlotsNormal (snd (fst (overlinkEntry ns e)))"
  by (auto simp: overlinkEntry_def toolSlotsNormal_main split: option.splits list.splits)

lemma overlink_zero: "toolIndexesNormal w \<Longrightarrow> toolIndexesNormal (fst (removeOverlinking w))"
  by (cases "connections w")
    (auto simp: toolIndexesNormal_def removeOverlinking_def Let_def list_all_iff
      toolSlotsNormal_overlink)

lemma pushMain_zero:
  assumes "list_all (\<lambda>e. toolSlotsNormal (snd e)) cs" and "pushMain src c cs = Inr cs'"
  shows "list_all (\<lambda>e. toolSlotsNormal (snd e)) cs'"
proof -
  let ?ports0 = "case map_of cs src of None \<Rightarrow> [] | Some ports \<Rightarrow> ports"
  have p0: "toolSlotsNormal ?ports0"
  proof (cases "map_of cs src")
    case None
    then show ?thesis by (simp add: toolSlotsNormal_def)
  next
    case (Some ports)
    with assms(1) have "toolSlotsNormal (snd (src, ports))" by (rule list_all_lookup)
    with Some show ?thesis by simp
  qed
  let ?ports1 = "case map_of ?ports0 ''main'' of
                   None \<Rightarrow> objSet ''main'' [[]] ?ports0 | Some outs \<Rightarrow> ?ports0"
  have p1: "toolSlotsNormal ?ports1"
    using p0 by (simp add: toolSlotsNormal_main split: option.splits)
  from assms(2) obtain v where "cs' = objSet src (objSet ''main'' v ?ports1) cs"
    by (auto simp: pushMain_def Let_def split: option.splits list.splits)
  then show ?thesis
    using assms(1) p1 by (simp add: list_all_objSet toolSlotsNormal_main)
qed

lemma toolSlotsNormal_rebuilt:
  "toolSlotsNormal (objSet ''ai_tool'' [[\<lparr>cnode = t, ctype = ''ai_tool'', cindex = Some 0\<rparr>]] ports)"
  by (simp add: toolSlotsNormal_def map_of_objSet)

lemma toolSlotsNormal_rebuilt_fresh:
  "toolSlotsNormal [(''ai_tool'', [[\<lparr>cnode = t, ctype = ''ai_tool'', cindex = Some 0\<rparr>]])]"
  by (simp add: toolSlotsNormal_def)

lemma rebuildNode_zero:
  assumes "list_all (\<lambda>e. toolSlotsNormal (snd e)) cs" and "rebuildNode ns incoming n cs = Inr r"
  shows "list_all (\<lambda>e. toolSlotsNormal (snd e)) (fst r)"
  using assms
  by (auto simp: rebuildNode_def Let_def toolSlotsNormal_rebuilt toolSlotsNormal_rebuilt_fresh
      intro!: list_all_objSet dest: pushMain_zero
      split: if_splits list.splits option.splits sum.splits)

lemma rebuildNodes_zero:
  "list_all (\<lambda>e. toolSlotsNormal (snd e)) cs \<Longrightarrow> rebuildNodes ns incoming ms cs = Inr r \<Longrightarrow>
   list_all (\<lambda>e. toolSlotsNormal (snd e)) (fst r)"
proof (induction ms arbitrary: cs r)
  case Nil
  then show ?case by auto
next
  case (Cons m ms)
  from Cons.prems(2) obtain r1 r2 where
    one: "rebuildNode ns incoming m cs = Inr r1" and
    two: "rebuildNodes ns incoming ms (fst r1) = Inr r2" and
    r: "fst r = fst r2"
    by (auto split: sum.splits)
  from Cons.prems(1) one have "list_all (\<lambda>e. toolSlotsNormal (snd e)) (fst r1)"
    by (rule rebuildNode_zero)
  from Cons.IH [OF this two] r show ?case by simp
qed

lemma rebuild_zero:
  assumes "toolIndexesNormal w" and "rebuildOrphanedConnections w = Inr r"
  shows "toolIndexesNormal (fst r)"
proof -
  let ?cs = "case connections w of None \<Rightarrow> [] | Some cs \<Rightarrow> cs"
  from assms(2) obtain x where x: "rebuildNodes (nodes w) (incomingTargets ?cs) (nodes w) ?cs = Inr x"
    and r: "fst r = w\<lparr>connections := Some (fst x)\<rparr>"
    by (auto simp: rebuildOrphanedConnections_def Let_def split: sum.splits)
  from assms(1) have "list_all (\<lambda>e. toolSlotsNormal (snd e)) ?cs"
    by (simp add: toolIndexesNormal_def)
  from rebuildNodes_zero [OF this x] r show ?thesis
    by (simp add: toolIndexesNormal_def)
qed

lemma lastPasses_zero:
  assumes "lastPasses w = Inr b"
  shows "toolIndexesNormal (fst b)"
proof -
  let ?w9 = "fst (removeOverlinking (fst (normalizeAIToolIndexes
               (fst (ensureDescriptiveNames (fst (fixNodePositioning w)))))))"
  have z9: "toolIndexesNormal ?w9"
    by (intro overlink_zero normalize_zero)
  show ?thesis
  proof (cases "list_ex isAIAgent (nodes ?w9)")
    case True
    with assms obtain f10 where "rebuildOrphanedConnections ?w9 = Inr f10" and "fst b = fst f10"
      by (auto simp: lastPasses_def Let_def split: sum.splits)
    with z9 show ?thesis by (simp add: rebuild_zero)
  next
    case False
    with assms have "fst b = ?w9"
      by (auto simp: lastPasses_def Let_def)
    with z9 show ?thesis by simp
  qed
qed

lemma invalidToolEntry_allowed:
  "case nodeTypeMap ns (fst (fst (invalidToolEntry ns e))) of
     None \<Rightarrow> True
   | Some sourceType \<Rightarrow>
       map_of (snd (fst (invalidToolEntry ns e))) ''ai_tool'' = None \<or> isAllowedToolNode sourceType"
  by (auto simp: invalidToolEntry_def map_of_objDelete split: option.splits)

lemma removeInvalid_sources: "toolSourcesAllowed (fst (removeInvalidAIToolConnections w))"
proof (cases "connections w")
  case None
  then show ?thesis
    by (simp add: toolSourcesAllowed_def removeInvalidAIToolConnections_def)
next
  case (Some cs)
  then show ?thesis
    using invalidToolEntry_allowed [of "nodes w"]
    by (simp add: toolSourcesAllowed_def removeInvalidAIToolConnections_def Let_def list_all_iff)
qed

text \<open>
  C4 (as amended): when the pipeline returns, every edge stored under the port
  kind \<open>ai_tool\<close> has index 0 or no property \<open>index\<close>: \<open>normalizeAIToolIndexes\<close>
  sets to 0 every index that is there and leaves an edge without one as it is,
  \<open>removeOverlinking\<close> touches only \<open>main\<close>, and \<open>rebuildOrphanedConnections\<close> adds
  tool edges with index 0 and \<open>main\<close> edges. And \<open>removeInvalidAIToolConnections\<close>
  leaves, on any workflow \<open>v\<close>, no \<open>ai_tool\<close> output on a source that names a step
  which is not tool-capable. Nothing is said of the target of a tool edge.
\<close>

theorem tool_edges_after_repair:
  assumes "applyAutoFixes uuid w = Inr r"
  shows "toolIndexesNormal (fixedWorkflow r) \<and>
         toolSourcesAllowed (fst (removeInvalidAIToolConnections v))"
proof -
  from assms obtain a b where "lastPasses a = Inr b" and "fixedWorkflow r = fst b"
    by (auto simp: applyAutoFixes_def Let_def split: sum.splits)
  then have "toolIndexesNormal (fixedWorkflow r)" by (simp add: lastPasses_zero)
  then show ?thesis by (simp add: removeInvalid_sources)
qed

lemma toolIndexThree_runs:
  "outcome (applyAutoFixes ids toolIndexThree) =
     Inr ([(Some ''Agent'', Some ''@n8n/n8n-nodes-langchain.agent''),
           (Some ''Calc'', Some ''@n8n/n8n-nodes-langchain.toolCalculator'')],
          [(''Calc'', ''ai_tool'', toolEdge ''Agent'')],
          [Summary 5 0, Detail (Repositioned BelowCenter (Some ''Calc'')),
           Summary 7 1, Detail (FixedToolIndex ''Calc'' ''Agent'' 3)])"
  by code_simp

lemma dataAsTool_stripped:
  "\<not> toolSourcesAllowed dataAsTool \<and>
   removeInvalidAIToolConnections dataAsTool =
     (dataAsTool\<lparr>connections := Some [(''Data'', [(''main'', [[mainEdge ''Agent'']])])]\<rparr>, 1)"
  by code_simp

text \<open>
  C4, an instance: a tool edge with index 3 has index 0 after the pipeline, and
  \<open>removeInvalidAIToolConnections\<close> takes the \<open>ai_tool\<close> output from a step that only
  sets data, which had one.
\<close>

theorem tool_edges_after_repair_witness:
  "\<not> toolIndexesNormal toolIndexThree \<and>
   (case applyAutoFixes ids toolIndexThree of
      Inl e \<Rightarrow> False
    | Inr r \<Rightarrow> toolIndexesNormal (fixedWorkflow r) \<and>
               edgesOf (fixedWorkflow r) = [(''Calc'', ''ai_tool'', toolEdge ''Agent'')]) \<and>
   \<not> toolSourcesAllowed dataAsTool \<and>
   snd (removeInvalidAIToolConnections dataAsTool) = 1 \<and>
   toolSourcesAllowed (fst (removeInvalidAIToolConnections dataAsTool))"
proof -
  have before: "\<not> toolIndexesNormal toolIndexThree" by code_simp
  from toolIndexThree_runs obtain r where run: "applyAutoFixes ids toolIndexThree = Inr r"
    and edges: "edgesOf (fixedWorkflow r) = [(''Calc'', ''ai_tool'', toolEdge ''Agent'')]"
    by (auto simp: outcome_def split: sum.splits)
  from tool_edges_after_repair [OF run, of dataAsTool]
  have "toolIndexesNormal (fixedWorkflow r)"
    and "toolSourcesAllowed (fst (removeInvalidAIToolConnections dataAsTool))"
    by simp_all
  moreover have "\<not> toolSourcesAllowed dataAsTool"
    and "snd (removeInvalidAIToolConnections dataAsTool) = 1"
    using dataAsTool_stripped by simp_all
  ultimately show ?thesis using before run edges by simp
qed

text \<open>
  C4 (the claim as stated fails), two runs of the pipeline. After the first, two
  \<open>ai_tool\<close> edges lead to "Data", a step of type \<open>n8n-nodes-base.set\<close>, which is no
  agent; the source of the first is "GPT", which names no step after the
  deprecated step was renamed, so it is no tool-capable step either
  (\<open>removeInvalidAIToolConnections\<close> skips a source whose name it does not find, and
  the test of a target's kind in \<open>fixBackwardsToolConnections\<close> is made only for
  a source that is an agent). After the second, the edge from the tool to the
  agent still has no property \<open>index\<close>, which is not index 0.
\<close>

theorem tool_edge_ends_counterexample:
  "outcome (applyAutoFixes ids toolToData) =
     Inr ([(Some ''OpenAI Chat Model'', Some ''@n8n/n8n-nodes-langchain.lmChatOpenAi''),
           (Some ''Calc'', Some ''@n8n/n8n-nodes-langchain.toolCalculator''),
           (Some ''Data'', Some ''n8n-nodes-base.set'')],
          [(''GPT'', ''ai_tool'', toolEdge ''Data''), (''Calc'', ''ai_tool'', toolEdge ''Data'')],
          [AddedPlaceholderCredentials ''GPT'', Summary 8 0,
           Detail (ReplacedDeprecated ''@n8n/n8n-nodes-langchain.openAi''
                     ''@n8n/n8n-nodes-langchain.lmChatOpenAi'' ''OpenAI Chat Model'')]) \<and>
   \<not> isAgentNode ''n8n-nodes-base.set'' \<and> \<not> isAIAgentNode ''n8n-nodes-base.set'' \<and>
   outcome (applyAutoFixes ids toolNoIndex) =
     Inr ([(Some ''Agent'', Some ''@n8n/n8n-nodes-langchain.agent''),
           (Some ''Calc'', Some ''@n8n/n8n-nodes-langchain.toolCalculator'')],
          [(''Calc'', ''ai_tool'', \<lparr>cnode = ''Agent'', ctype = ''ai_tool'', cindex = None\<rparr>)],
          [Summary 5 0, Detail (Repositioned BelowCenter (Some ''Calc''))])"
  by code_simp

section \<open>Model names in the parameters\<close>

lemma map_of_stripModelKey:
  "map_of (fst (stripModelKey k ps)) k' =
     (if k' = k \<and> isHardcodedModel (map_of ps k) then None else map_of ps k')"
  by (simp add: stripModelKey_def map_of_objDelete)

lemma snd_stripModelKey: "snd (stripModelKey k ps) = isHardcodedModel (map_of ps k)"
  by (simp add: stripModelKey_def)

lemma stripModelKey_unchanged: "\<not> isHardcodedModel (map_of ps k) \<Longrightarrow> fst (stripModelKey k ps) = ps"
  by (simp add: stripModelKey_def)

lemma map_of_ensureOptions:
  "map_of (ensureOptions ps) k =
     (if k = ''options'' \<and> \<not> truthy (map_of ps ''options'') then Some (JObj []) else map_of ps k)"
  by (simp add: ensureOptions_def map_of_objSet)

lemma hardcodedNode_parameters:
  assumes "truthyS (name n)" and "truthyS (ntype n)"
    and "isLanguageModelNode (keyOf (ntype n))" and "parameters n = Some (JObj ps)"
  shows "\<exists>ps'. parameters (fst (hardcodedNode n)) = Some (JObj ps') \<and>
     (\<forall>k. map_of ps' k =
        (if (k = ''model'' \<or> k = ''modelName'') \<and> isHardcodedModel (map_of ps k) then None
         else if k = ''options'' \<and> \<not> truthy (map_of ps ''options'') \<and>
                 (isHardcodedModel (map_of ps ''model'') \<or> isHardcodedModel (map_of ps ''modelName''))
         then Some (JObj [])
         else map_of ps k)) \<and>
     (\<not> isHardcodedModel (map_of ps ''model'') \<and> \<not> isHardcodedModel (map_of ps ''modelName'')
        \<longrightarrow> ps' = ps)"
  using assms
  by (auto simp: hardcodedNode_def Let_def snd_stripModelKey map_of_stripModelKey
      map_of_ensureOptions stripModelKey_unchanged)

text \<open>
  C8 (as amended): for a step with a name and a model type whose parameters are
  an object, the pass looks at the keys \<open>model\<close> and \<open>modelName\<close> only. Each of
  the two is deleted when its value is a string that contains, ignoring case, a
  pattern of the list; when one was deleted, \<open>options\<close> is set to the empty object
  unless it holds a truthy value already; every other key keeps its value; when
  neither was deleted the parameters are unchanged.
\<close>

theorem removeHardcoded_two_keys_only:
  assumes "i < length (nodes w)"
    and "truthyS (name (nodes w ! i))" and "truthyS (ntype (nodes w ! i))"
    and "isLanguageModelNode (keyOf (ntype (nodes w ! i)))"
    and "parameters (nodes w ! i) = Some (JObj ps)"
  shows "\<exists>ps'. parameters (nodes (fst (removeHardcodedModelParameters w)) ! i) = Some (JObj ps') \<and>
     (\<forall>k. map_of ps' k =
        (if (k = ''model'' \<or> k = ''modelName'') \<and> isHardcodedModel (map_of ps k) then None
         else if k = ''options'' \<and> \<not> truthy (map_of ps ''options'') \<and>
                 (isHardcodedModel (map_of ps ''model'') \<or> isHardcodedModel (map_of ps ''modelName''))
         then Some (JObj [])
         else map_of ps k)) \<and>
     (\<not> isHardcodedModel (map_of ps ''model'') \<and> \<not> isHardcodedModel (map_of ps ''modelName'')
        \<longrightarrow> ps' = ps)"
proof -
  have "nodes (fst (removeHardcodedModelParameters w)) ! i = fst (hardcodedNode (nodes w ! i))"
    using assms(1) by (simp add: removeHardcodedModelParameters_def Let_def)
  then show ?thesis
    using hardcodedNode_parameters [OF assms(2-5)] by simp
qed

lemma modelFlow_facts:
  "truthyS (name (nodes modelFlow ! 0))" "truthyS (ntype (nodes modelFlow ! 0))"
  "isLanguageModelNode (keyOf (ntype (nodes modelFlow ! 0)))"
  "parameters (nodes modelFlow ! 0) = Some (JObj [(''model'', JStr ''GPT-4o-mini''), (''temperature'', JNum 1)])"
  "0 < length (nodes modelFlow)"
  "isHardcodedModel (Some (JStr ''GPT-4o-mini''))"
  by code_simp+

text \<open>
  C8, an instance: \<open>model\<close> is deleted, \<open>options\<close> is added, \<open>temperature\<close> stays.
\<close>

theorem removeHardcoded_two_keys_only_witness:
  "\<exists>ps'. parameters (nodes (fst (removeHardcodedModelParameters modelFlow)) ! 0) = Some (JObj ps') \<and>
      map_of ps' ''model'' = None \<and> map_of ps' ''options'' = Some (JObj []) \<and>
      map_of ps' ''temperature'' = Some (JNum 1)"
proof -
  from removeHardcoded_two_keys_only [OF modelFlow_facts(5) modelFlow_facts(1-4)]
  obtain ps' where p: "parameters (nodes (fst (removeHardcodedModelParameters modelFlow)) ! 0) = Some (JObj ps')"
    and look: "\<forall>k. map_of ps' k =
        (if (k = ''model'' \<or> k = ''modelName'') \<and>
            isHardcodedModel (map_of [(''model'', JStr ''GPT-4o-mini''), (''temperature'', JNum 1)] k) then None
         else if k = ''options'' \<and> \<not> truthy (map_of [(''model'', JStr ''GPT-4o-mini''), (''temperature'', JNum 1)] ''options'') \<and>
                 (isHardcodedModel (map_of [(''model'', JStr ''GPT-4o-mini''), (''temperature'', JNum 1)] ''model'') \<or>
                  isHardcodedModel (map_of [(''model'', JStr ''GPT-4o-mini''), (''temperature'', JNum 1)] ''modelName''))
         then Some (JObj [])
         else map_of [(''model'', JStr ''GPT-4o-mini''), (''temperature'', JNum 1)] k)"
    by blast
  have "map_of ps' ''model'' = None" "map_of ps' ''options'' = Some (JObj [])"
       "map_of ps' ''temperature'' = Some (JNum 1)"
    using modelFlow_facts(6) by (simp_all add: look)
  with p show ?thesis by blast
qed

text \<open>
  C8 (the claim as stated fails): the value of \<open>modelId\<close> is "gpt-4", which matches
  the list, and the key is not deleted.
\<close>

theorem removeHardcoded_other_key_counterexample:
  "isLanguageModelNode ''@n8n/n8n-nodes-langchain.lmChatOpenAi'' \<and>
   nodes modelIdFlow = [(step ''LLM'' ''@n8n/n8n-nodes-langchain.lmChatOpenAi'')
                          \<lparr>parameters := Some (JObj [(''modelId'', JStr ''gpt-4'')])\<rparr>] \<and>
   matchesHardcoded ''gpt-4'' \<and>
   removeHardcodedModelParameters modelIdFlow = (modelIdFlow, 0, [])"
  by code_simp

section \<open>Running a pass, or the pipeline, twice\<close>

text \<open>replaceDeprecatedNodes\<close>

lemma deprecated_target_is_current:
  "map_of deprecatedNodes t = Some t' \<Longrightarrow> map_of deprecatedNodes t' = None"
  by (auto simp: deprecatedNodes_def split: if_splits)

lemma replaceNode_again: "replaceNode (fst (replaceNode n)) = (fst (replaceNode n), [])"
  by (auto simp: replaceNode_def deprecated_target_is_current split: option.splits)

lemma replaceDeprecatedNodes_again:
  "replaceDeprecatedNodes (fst (replaceDeprecatedNodes w)) = (fst (replaceDeprecatedNodes w), [])"
  by (simp add: replaceDeprecatedNodes_def Let_def comp_def replaceNode_again)

text \<open>removeInvalidAIToolConnections\<close>

lemma invalidToolEntry_again:
  "invalidToolEntry ns (fst (invalidToolEntry ns e)) = (fst (invalidToolEntry ns e), 0)"
  by (auto simp: invalidToolEntry_def map_of_objDelete split: option.splits)

lemma removeInvalid_again:
  "removeInvalidAIToolConnections (fst (removeInvalidAIToolConnections w)) =
     (fst (removeInvalidAIToolConnections w), 0)"
  by (cases "connections w")
    (simp_all add: removeInvalidAIToolConnections_def Let_def comp_def invalidToolEntry_again)

text \<open>removeHardcodedModelParameters\<close>

lemma stripModelKey_gone:
  "\<not> isHardcodedModel (map_of ps k) \<Longrightarrow> stripModelKey k ps = (ps, False)"
  by (simp add: stripModelKey_def)

lemma hardcodedNode_again: "hardcodedNode (fst (hardcodedNode n)) = (fst (hardcodedNode n), 0, [])"
proof (cases "\<exists>ps. truthyS (name n) \<and> truthyS (ntype n) \<and> isLanguageModelNode (keyOf (ntype n)) \<and>
                parameters n = Some (JObj ps) \<and>
                (snd (stripModelKey ''model'' ps) \<or>
                 snd (stripModelKey ''modelName'' (fst (stripModelKey ''model'' ps))))")
  case True
  then obtain ps where n: "truthyS (name n)" "truthyS (ntype n)"
      "isLanguageModelNode (keyOf (ntype n))" "parameters n = Some (JObj ps)"
    and hit: "snd (stripModelKey ''model'' ps) \<or>
              snd (stripModelKey ''modelName'' (fst (stripModelKey ''model'' ps)))"
    by blast
  let ?ps' = "ensureOptions (fst (stripModelKey ''modelName'' (fst (stripModelKey ''model'' ps))))"
  have first: "fst (hardcodedNode n) = n\<lparr>parameters := Some (JObj ?ps')\<rparr>"
    using n hit by (simp add: hardcodedNode_def Let_def)
  have m1: "\<not> isHardcodedModel (map_of ?ps' ''model'')"
    by (simp add: map_of_ensureOptions map_of_stripModelKey)
  have m2: "\<not> isHardcodedModel (map_of ?ps' ''modelName'')"
    by (simp add: map_of_ensureOptions map_of_stripModelKey)
  show ?thesis
    using n m1 m2 by (simp add: first hardcodedNode_def Let_def stripModelKey_gone)
next
  case False
  then have "hardcodedNode n = (n, 0, [])"
    by (auto simp: hardcodedNode_def Let_def split: option.splits jvalue.splits)
  then show ?thesis by simp
qed

lemma removeHardcoded_again:
  "removeHardcodedModelParameters (fst (removeHardcodedModelParameters w)) =
     (fst (removeHardcodedModelParameters w), 0, [])"
  by (simp add: removeHardcodedModelParameters_def Let_def comp_def hardcodedNode_again)

text \<open>normalizeAIToolIndexes\<close>

lemma needsZero_zeroIndex: "\<not> needsZero (zeroIndex c)"
  by (cases "cindex c") (simp_all add: zeroIndex_def needsZero_def)

lemma zeroIndex_again: "zeroIndex (zeroIndex c) = zeroIndex c"
  using needsZero_zeroIndex [of c] by (simp add: zeroIndex_def)

lemma normalizeEntry_again: "normalizeEntry (fst (normalizeEntry e)) = (fst (normalizeEntry e), [])"
  by (auto simp: normalizeEntry_def map_of_objSet objSet_twice comp_def filter_empty_conv
      needsZero_zeroIndex zeroIndex_again split: option.splits)

lemma normalize_again:
  "normalizeAIToolIndexes (fst (normalizeAIToolIndexes w)) = (fst (normalizeAIToolIndexes w), 0, [])"
  by (cases "connections w")
    (simp_all add: normalizeAIToolIndexes_def Let_def comp_def normalizeEntry_again)

text \<open>removeOverlinking\<close>

lemma overlinkEntry_again:
  "overlinkEntry ns (fst (overlinkEntry ns e)) = (fst (overlinkEntry ns e), [])"
  by (auto simp: overlinkEntry_def map_of_objSet split: option.splits list.splits)

lemma removeOverlinking_again:
  "removeOverlinking (fst (removeOverlinking w)) = (fst (removeOverlinking w), 0, [])"
  by (cases "connections w")
    (simp_all add: removeOverlinking_def Let_def comp_def overlinkEntry_again)

text \<open>convertRegularNodesToTools\<close>

lemma toolMappings_kinds:
  "list_all (\<lambda>kv. \<not> isAgentNode (fst kv) \<and> \<not> isAgentNode (snd kv) \<and> isToolNode (snd kv))
     toolMappings"
  by code_simp

lemma toolVariant_kinds:
  assumes "getToolVariant t = Some v"
  shows "\<not> isAgentNode t" and "\<not> isAgentNode v" and "isToolNode v"
proof -
  from assms have "(t, v) \<in> set toolMappings"
    by (simp add: getToolVariant_def map_of_SomeD)
  with toolMappings_kinds show "\<not> isAgentNode t" "\<not> isAgentNode v" "isToolNode v"
    by (auto simp: list_all_iff)
qed

lemma convertNode_cases:
  "(\<exists>v. truthyS (ntype n) \<and> getToolVariant (keyOf (ntype n)) = Some v \<and>
        fst (convertNode conns n) = n\<lparr>ntype := Some v\<rparr>) \<or>
   convertNode conns n = (n, [])"
  by (simp add: convertNode_def split: option.splits)

lemma convertNode_again: "convertNode conns (fst (convertNode conns n)) = (fst (convertNode conns n), [])"
  using convertNode_cases [of n conns]
proof
  assume "\<exists>v. truthyS (ntype n) \<and> getToolVariant (keyOf (ntype n)) = Some v \<and>
        fst (convertNode conns n) = n\<lparr>ntype := Some v\<rparr>"
  then obtain v where g: "getToolVariant (keyOf (ntype n)) = Some v"
    and c: "fst (convertNode conns n) = n\<lparr>ntype := Some v\<rparr>"
    by blast
  from g have "isToolNode v" by (rule toolVariant_kinds)
  then have "convertNode conns (n\<lparr>ntype := Some v\<rparr>) = (n\<lparr>ntype := Some v\<rparr>, [])"
    by (simp add: convertNode_def)
  then show ?thesis by (simp only: c)
next
  assume "convertNode conns n = (n, [])"
  then show ?thesis by simp
qed

lemma orElse_truthy: "truthyS t \<Longrightarrow> orElse t [] = keyOf t"
  by (cases t) simp_all

lemma isAgentNode_empty: "\<not> isAgentNode []"
  by (simp add: isAgentNode_def)

lemma convertNode_agent:
  "isAgentNode (orElse (ntype (fst (convertNode conns n))) []) = isAgentNode (orElse (ntype n) [])"
  using convertNode_cases [of n conns]
proof
  assume "\<exists>v. truthyS (ntype n) \<and> getToolVariant (keyOf (ntype n)) = Some v \<and>
        fst (convertNode conns n) = n\<lparr>ntype := Some v\<rparr>"
  then obtain v where t: "truthyS (ntype n)" and g: "getToolVariant (keyOf (ntype n)) = Some v"
    and c: "fst (convertNode conns n) = n\<lparr>ntype := Some v\<rparr>"
    by blast
  from g have "\<not> isAgentNode (keyOf (ntype n))" and "\<not> isAgentNode v"
    by (rule toolVariant_kinds)+
  with t have "isAgentNode (orElse (ntype (n\<lparr>ntype := Some v\<rparr>)) []) = isAgentNode (orElse (ntype n) [])"
    by (simp add: orElse_truthy isAgentNode_empty)
  then show ?thesis by (simp only: c)
next
  assume "convertNode conns n = (n, [])"
  then show ?thesis by simp
qed

lemma convert_keeps_agents:
  "hasAIAgents (w\<lparr>nodes := map (\<lambda>n. fst (convertNode conns n)) (nodes w)\<rparr>) = hasAIAgents w"
  by (simp add: hasAIAgents_def list_ex_iff convertNode_agent)

lemma convert_again:
  "convertRegularNodesToTools (fst (convertRegularNodesToTools w)) =
     (fst (convertRegularNodesToTools w), 0, [])"
proof (cases "hasAIAgents w")
  case False
  then show ?thesis by (simp add: convertRegularNodesToTools_def)
next
  case True
  let ?w' = "w\<lparr>nodes := map (\<lambda>n. fst (convertNode (connections w) n)) (nodes w)\<rparr>"
  have first: "fst (convertRegularNodesToTools w) = ?w'"
    using True by (simp add: convertRegularNodesToTools_def Let_def comp_def)
  have agents: "hasAIAgents ?w'" using True by (simp add: convert_keeps_agents)
  show ?thesis
    unfolding first
    using agents by (simp add: convertRegularNodesToTools_def Let_def comp_def convertNode_again)
qed

text \<open>
  C5 (as amended): each of the passes \<open>replaceDeprecatedNodes\<close>,
  \<open>removeInvalidAIToolConnections\<close>, \<open>convertRegularNodesToTools\<close>,
  \<open>removeHardcodedModelParameters\<close>, \<open>normalizeAIToolIndexes\<close> and
  \<open>removeOverlinking\<close>, run on the workflow it produced, changes nothing and
  reports nothing.
\<close>

theorem single_passes_idempotent:
  "replaceDeprecatedNodes (fst (replaceDeprecatedNodes w)) = (fst (replaceDeprecatedNodes w), []) \<and>
   removeInvalidAIToolConnections (fst (removeInvalidAIToolConnections w)) =
     (fst (removeInvalidAIToolConnections w), 0) \<and>
   convertRegularNodesToTools (fst (convertRegularNodesToTools w)) =
     (fst (convertRegularNodesToTools w), 0, []) \<and>
   removeHardcodedModelParameters (fst (removeHardcodedModelParameters w)) =
     (fst (removeHardcodedModelParameters w), 0, []) \<and>
   normalizeAIToolIndexes (fst (normalizeAIToolIndexes w)) =
     (fst (normalizeAIToolIndexes w), 0, []) \<and>
   removeOverlinking (fst (removeOverlinking w)) = (fst (removeOverlinking w), 0, [])"
  by (simp only: replaceDeprecatedNodes_again removeInvalid_again convert_again
      removeHardcoded_again normalize_again removeOverlinking_again simp_thms)

text \<open>
  C5 (the claim as stated fails): an agent and two unconnected steps. The first
  run connects both to the agent, on the agent's first output slot. The second run
  removes the second of these edges as over-linking and then connects the step
  again as an orphan: two fixes, and the same workflow as before.
\<close>

theorem pipeline_not_idempotent_counterexample:
  "outcome (applyAutoFixes ids agentAndTwo) =
     Inr ([(Some ''Agent'', Some ''@n8n/n8n-nodes-langchain.agent''),
           (Some ''A'', Some ''n8n-nodes-base.set''), (Some ''B'', Some ''n8n-nodes-base.set'')],
          [(''Agent'', ''main'', mainEdge ''A''), (''Agent'', ''main'', mainEdge ''B'')],
          [Summary 10 2, Detail (ReconnectedFromAgent (Some ''A'') (Some ''Agent'')),
           Detail (ReconnectedFromAgent (Some ''B'') (Some ''Agent''))]) \<and>
   outcome (runTwice ids agentAndTwo) =
     Inr ([(Some ''Agent'', Some ''@n8n/n8n-nodes-langchain.agent''),
           (Some ''A'', Some ''n8n-nodes-base.set''), (Some ''B'', Some ''n8n-nodes-base.set'')],
          [(''Agent'', ''main'', mainEdge ''A''), (''Agent'', ''main'', mainEdge ''B'')],
          [Summary 9 1, Detail (RemovedOverlinking ''Agent'' ''B'' ''A''),
           Summary 10 1, Detail (ReconnectedFromAgent (Some ''B'') (Some ''Agent''))])"
  by code_simp

section \<open>The over-linking pass\<close>

lemma overlinkEntry_source: "fst (fst (overlinkEntry ns e)) = fst e"
  by (simp add: overlinkEntry_def split: option.splits list.splits)

lemma overlinkEntry_lookup:
  "map_of (snd (fst (overlinkEntry ns e))) k =
     (if k = ''main'' \<and> \<not> isConditionalSource ns (fst e)
      then (case map_of (snd e) ''main'' of
              None \<Rightarrow> None
            | Some [] \<Rightarrow> Some []
            | Some (slot0 # rest) \<Rightarrow> Some (take 1 slot0 # rest))
      else map_of (snd e) k)"
  by (simp add: overlinkEntry_def map_of_objSet split: option.splits list.splits)

lemma overlinkEntry_keys: "map fst (snd (fst (overlinkEntry ns e))) = map fst (snd e)"
  by (auto simp: overlinkEntry_def map_fst_objSet_present split: option.splits list.splits)

text \<open>
  C6 (as amended): the pass keeps the steps, the sources and the port kinds as
  they are. For a source that is not a step of type \<open>n8n-nodes-base.if\<close> or
  \<open>n8n-nodes-base.switch\<close>, the first output slot of \<open>main\<close> keeps its first edge
  only and every other slot of \<open>main\<close> is unchanged; every other port kind, and
  every port kind of a conditional source, is unchanged.
\<close>

theorem removeOverlinking_first_slot_only:
  assumes "connections w = Some cs" and "i < length cs"
  shows "\<exists>cs'. connections (fst (removeOverlinking w)) = Some cs' \<and>
           nodes (fst (removeOverlinking w)) = nodes w \<and>
           length cs' = length cs \<and>
           fst (cs' ! i) = fst (cs ! i) \<and>
           map fst (snd (cs' ! i)) = map fst (snd (cs ! i)) \<and>
           (\<forall>k. map_of (snd (cs' ! i)) k =
              (if k = ''main'' \<and> \<not> isConditionalSource (nodes w) (fst (cs ! i))
               then (case map_of (snd (cs ! i)) ''main'' of
                       None \<Rightarrow> None
                     | Some [] \<Rightarrow> Some []
                     | Some (slot0 # rest) \<Rightarrow> Some (take 1 slot0 # rest))
               else map_of (snd (cs ! i)) k))"
  using assms
  by (simp add: removeOverlinking_def Let_def overlinkEntry_source overlinkEntry_lookup
      overlinkEntry_keys)

lemma scenarioD_connections:
  "connections scenarioD = Some
        [(''Step 1'', [(''main'', [[mainEdge ''Step 2'']])]),
         (''Step 2'', [(''main'', [[mainEdge ''Step 3'']])]),
         (''Step 3'', [(''main'', [[mainEdge ''Step 4'', mainEdge ''Step 7'']])]),
         (''Step 4'', [(''main'', [[mainEdge ''Step 5'']])]),
         (''Step 5'', [(''main'', [[mainEdge ''Step 6'']])]),
         (''Step 6'', [(''main'', [[mainEdge ''Step 7'']])]),
         (''Step 7'', [(''main'', [[mainEdge ''Step 8'']])]),
         (''Step 8'', [(''main'', [[mainEdge ''Step 9'']])]),
         (''Step 9'', [(''main'', [[mainEdge ''Step 10'']])])]"
  by (simp add: scenarioD_def)

lemma scenarioD_step3: "\<not> isConditionalSource (nodes scenarioD) ''Step 3''"
  by code_simp

text \<open>
  C6, Scenario D through the theorem: "Step 3" keeps its edge to "Step 4" only.
\<close>

theorem removeOverlinking_first_slot_only_witness:
  "\<exists>cs'. connections (fst (removeOverlinking scenarioD)) = Some cs' \<and>
      fst (cs' ! 2) = ''Step 3'' \<and>
      map_of (snd (cs' ! 2)) ''main'' = Some [[mainEdge ''Step 4'']]"
proof -
  let ?cs = "[(''Step 1'', [(''main'', [[mainEdge ''Step 2'']])]),
         (''Step 2'', [(''main'', [[mainEdge ''Step 3'']])]),
         (''Step 3'', [(''main'', [[mainEdge ''Step 4'', mainEdge ''Step 7'']])]),
         (''Step 4'', [(''main'', [[mainEdge ''Step 5'']])]),
         (''Step 5'', [(''main'', [[mainEdge ''Step 6'']])]),
         (''Step 6'', [(''main'', [[mainEdge ''Step 7'']])]),
         (''Step 7'', [(''main'', [[mainEdge ''Step 8'']])]),
         (''Step 8'', [(''main'', [[mainEdge ''Step 9'']])]),
         (''Step 9'', [(''main'', [[mainEdge ''Step 10'']])])]"
  have third: "?cs ! 2 = (''Step 3'', [(''main'', [[mainEdge ''Step 4'', mainEdge ''Step 7'']])])"
    by (simp add: numeral_2_eq_2)
  have "2 < length ?cs" by simp
  from removeOverlinking_first_slot_only [OF scenarioD_connections this]
  obtain cs' where out: "connections (fst (removeOverlinking scenarioD)) = Some cs'"
    and src: "fst (cs' ! 2) = fst (?cs ! 2)"
    and look: "\<forall>k. map_of (snd (cs' ! 2)) k =
              (if k = ''main'' \<and> \<not> isConditionalSource (nodes scenarioD) (fst (?cs ! 2))
               then (case map_of (snd (?cs ! 2)) ''main'' of
                       None \<Rightarrow> None
                     | Some [] \<Rightarrow> Some []
                     | Some (slot0 # rest) \<Rightarrow> Some (take 1 slot0 # rest))
               else map_of (snd (?cs ! 2)) k)"
    by blast
  from look have "map_of (snd (cs' ! 2)) ''main'' = Some [[mainEdge ''Step 4'']]"
    using scenarioD_step3 by (simp add: third)
  with out src third show ?thesis by simp
qed

lemma removeOverlinking_scenarioD:
  "removeOverlinking scenarioD =
     (scenarioD\<lparr>connections := Some
        [(''Step 1'', [(''main'', [[mainEdge ''Step 2'']])]),
         (''Step 2'', [(''main'', [[mainEdge ''Step 3'']])]),
         (''Step 3'', [(''main'', [[mainEdge ''Step 4'']])]),
         (''Step 4'', [(''main'', [[mainEdge ''Step 5'']])]),
         (''Step 5'', [(''main'', [[mainEdge ''Step 6'']])]),
         (''Step 6'', [(''main'', [[mainEdge ''Step 7'']])]),
         (''Step 7'', [(''main'', [[mainEdge ''Step 8'']])]),
         (''Step 8'', [(''main'', [[mainEdge ''Step 9'']])]),
         (''Step 9'', [(''main'', [[mainEdge ''Step 10'']])])]\<rparr>,
      1, [RemovedOverlinking ''Step 3'' ''Step 7'' ''Step 4''])"
  by code_simp

text \<open>
  C6 (the claim as stated fails): "A" is no conditional and its second output
  slot holds two edges; the pass changes nothing.
\<close>

theorem removeOverlinking_second_slot_counterexample:
  "\<not> isConditionalSource (nodes secondSlot) ''A'' \<and>
   connections secondSlot =
     Some [(''A'', [(''main'', [[mainEdge ''B''], [mainEdge ''C'', mainEdge ''D'']])])] \<and>
   removeOverlinking secondSlot = (secondSlot, 0, [])"
  by code_simp

section \<open>What a call leaves untouched\<close>

lemma update_last: "(s @ [x])[length s := v] = s @ [v]"
  by (simp add: list_update_append)

lemma inPlace_copy:
  "inPlace (length s) pass (s @ [x]) = (snd (pass (ofRaw x)), s @ [toRaw (fst (pass (ofRaw x)))])"
  by (simp add: inPlace_def Let_def update_last)

lemma inPlaceE_copy:
  "inPlaceE (length s) pass (s @ [x]) =
     (case pass (ofRaw x) of
        Inl e \<Rightarrow> (Inl e, s @ [x])
      | Inr r \<Rightarrow> (Inr (snd r), s @ [toRaw (fst r)]))"
  by (simp add: inPlaceE_def update_last split: sum.splits)

lemma nodeObjects_map: "nodeObjects (map NodeObject ns) = ns"
  by (induction ns) simp_all

lemma ofRaw_toRaw: "ofRaw (toRaw w) = w"
  by (simp add: ofRaw_def toRaw_def nodeObjects_map)

text \<open>The run on the copy computes what \<open>applyAutoFixes\<close> computes from the content.\<close>

lemma applyAutoFixesAt_result:
  "fst (applyAutoFixesAt uuid a s) =
     (case applyAutoFixes uuid (ofRaw (s ! a)) of
        Inl e \<Rightarrow> Inl e
      | Inr r \<Rightarrow> Inr \<lparr>fixedAt = fixed r, copyAt = length s, fixListAt = fixList r,
                       fixWarningsAt = fixWarnings r\<rparr>)"
  by (simp add: applyAutoFixesAt_def applyAutoFixes_def Let_def inPlace_copy inPlaceE_copy
      ofRaw_toRaw split: sum.splits)

lemma applyAutoFixesAt_store:
  "applyAutoFixes uuid (ofRaw (s ! a)) = Inr r \<Longrightarrow>
   snd (applyAutoFixesAt uuid a s) = s @ [toRaw (fixedWorkflow r)]"
  by (auto simp: applyAutoFixesAt_def applyAutoFixes_def Let_def inPlace_copy inPlaceE_copy
      ofRaw_toRaw split: sum.splits)




lemma scanNodes_objects: "scanNodes i rns errs = Inr r \<Longrightarrow> fst r = nodeObjects rns"
proof (induction i rns errs arbitrary: r rule: scanNodes.induct)
  case (1 i errs)
  then show ?case by auto
next
  case (2 i rest errs)
  then show ?case by simp
next
  case (3 i n rest errs)
  then show ?case by (auto split: if_splits sum.splits)
qed

lemma checkAndFixAt_agrees:
  assumes "a < length s" and "ofRaw (s ! a) = w"
  shows "sameReport (checkAndFixAt uuid schemaErrors a w autofix s)
           (checkAndFix uuid schemaErrors w autofix)"
proof (cases "applyAutoFixes uuid w")
  case (Inl e)
  with assms have "fst (applyAutoFixesAt uuid a s) = Inl e"
    by (simp add: applyAutoFixesAt_result)
  with Inl assms(2) show ?thesis
    by (simp add: sameReport_def checkAndFixAt_def checkAndFix_def Let_def failure_def
        failureAt_def)
next
  case (Inr r)
  with assms have res: "fst (applyAutoFixesAt uuid a s) =
      Inr \<lparr>fixedAt = fixed r, copyAt = length s, fixListAt = fixList r,
           fixWarningsAt = fixWarnings r\<rparr>"
    by (simp add: applyAutoFixesAt_result)
  from Inr assms have st: "snd (applyAutoFixesAt uuid a s) = s @ [toRaw (fixedWorkflow r)]"
    by (simp add: applyAutoFixesAt_store)
  show ?thesis
    using assms Inr
    by (simp add: sameReport_def checkAndFixAt_def checkAndFix_def Let_def failure_def
        failureAt_def res st ofRaw_toRaw nth_append)
qed

lemma validateWorkflowAt_agrees:
  assumes "a < length s"
  shows "sameReport (validateWorkflowAt uuid schemaErrors (Reference a) autofix s)
           (validateWorkflow uuid schemaErrors (WorkflowObject (s ! a)) autofix)"
proof (cases "rawNodes (s ! a)")
  case None
  then show ?thesis
    by (simp add: validateWorkflowAt_def validateWorkflow_def sameReport_def failure_def
        failureAt_def)
next
  case (Some rns)
  show ?thesis
  proof (cases "scanNodes 0 rns []")
    case (Inl errs)
    with Some show ?thesis
      by (simp add: validateWorkflowAt_def validateWorkflow_def sameReport_def failure_def
          failureAt_def)
  next
    case (Inr r)
    show ?thesis
    proof (cases "snd r = []")
      case False
      with Some Inr show ?thesis
        by (simp add: validateWorkflowAt_def validateWorkflow_def sameReport_def failure_def
            failureAt_def)
    next
      case True
      from Inr have "fst r = nodeObjects rns" by (rule scanNodes_objects)
      with Some have "ofRaw (s ! a) =
          \<lparr>wname = rawName (s ! a), nodes = fst r, connections = rawConnections (s ! a)\<rparr>"
        by (simp add: ofRaw_def)
      from checkAndFixAt_agrees [OF assms this] Some Inr True show ?thesis
        by (simp add: validateWorkflowAt_def validateWorkflow_def)
    qed
  qed
qed

section \<open>Duplicate connections\<close>

lemma distinct_bumpPair: "distinct (map fst m) \<Longrightarrow> distinct (map fst (bumpPair k m))"
  by (simp add: bumpPair_def distinct_objSet)

lemma distinct_fold_bumpPair: "distinct (map fst m) \<Longrightarrow> distinct (map fst (fold bumpPair ks m))"
  by (induction ks arbitrary: m) (simp_all add: distinct_bumpPair)

lemma map_of_bumpPair:
  "map_of (bumpPair k m) k' =
     (if k' = k then Some ((case map_of m k of None \<Rightarrow> 0 | Some c \<Rightarrow> c) + 1) else map_of m k')"
  by (simp add: bumpPair_def map_of_objSet)

lemma map_of_fold_bumpPair:
  "map_of (fold bumpPair ks m) k =
     (if k \<in> set ks
      then Some (count_list ks k + (case map_of m k of None \<Rightarrow> 0 | Some c \<Rightarrow> c))
      else map_of m k)"
proof (induction ks arbitrary: m)
  case Nil
  show ?case by simp
next
  case (Cons a ks)
  show ?case
    by (auto simp: Cons.IH map_of_bumpPair count_list_0_iff split: option.splits)
qed

lemma pairs_visitConns:
  "connectionPairs (fold (\<lambda>kc. visitConn ns src (snd kc)) es st) =
     fold bumpPair (map (\<lambda>kc. pairKey src (cnode (snd kc)))
                      (filter (\<lambda>kc. validName ns (cnode (snd kc))) es))
          (connectionPairs st)"
  by (induction es arbitrary: st) (simp_all add: visitConn_def)

lemma allEdges_Cons:
  "allEdges (e # cs) = map (\<lambda>kc. (fst e, kc)) (portEdges (snd e)) @ allEdges cs"
  by (simp add: allEdges_def split_beta)

lemma validPairKeys_Cons:
  "validPairKeys ns (e # cs) =
     (if validName ns (fst e)
      then map (\<lambda>kc. pairKey (fst e) (cnode (snd kc)))
             (filter (\<lambda>kc. validName ns (cnode (snd kc))) (portEdges (snd e)))
      else []) @ validPairKeys ns cs"
  by (simp add: validPairKeys_def allEdges_Cons filter_map comp_def)

lemma pairs_visitSource_step:
  "connectionPairs (visitSource ns e st) =
     fold bumpPair
       (if validName ns (fst e)
        then map (\<lambda>kc. pairKey (fst e) (cnode (snd kc)))
               (filter (\<lambda>kc. validName ns (cnode (snd kc))) (portEdges (snd e)))
        else [])
       (connectionPairs st)"
  by (simp add: visitSource_def pairs_visitConns)

lemma pairs_visitSource:
  "connectionPairs (fold (visitSource ns) cs st) =
     fold bumpPair (validPairKeys ns cs) (connectionPairs st)"
proof (induction cs arbitrary: st)
  case Nil
  show ?case by (simp add: validPairKeys_def allEdges_def)
next
  case (Cons e cs)
  show ?case
    by (simp only: fold_simps Cons.IH validPairKeys_Cons pairs_visitSource_step fold_append
        comp_apply)
qed

lemma errors_visitConns:
  "list_ex isDuplicateWarning (csErrors (fold (\<lambda>kc. visitConn ns src (snd kc)) es st)) =
     list_ex isDuplicateWarning (csErrors st)"
  by (induction es arbitrary: st) (simp_all add: visitConn_def isDuplicateWarning_def)

lemma errors_visitSource_step:
  "list_ex isDuplicateWarning (csErrors (visitSource ns e st)) =
     list_ex isDuplicateWarning (csErrors st)"
  by (simp add: visitSource_def errors_visitConns) (simp add: isDuplicateWarning_def)

lemma errors_visitSource:
  "list_ex isDuplicateWarning (csErrors (fold (visitSource ns) cs st)) =
     list_ex isDuplicateWarning (csErrors st)"
  by (induction cs arbitrary: st) (simp_all add: errors_visitSource_step)

lemma hangingIssue_no_duplicate: "\<not> list_ex isDuplicateWarning (hangingIssue n)"
  by (simp add: hangingIssue_def Let_def isDuplicateWarning_def)

lemma concat_no_duplicate:
  "list_ex isDuplicateWarning (concat (map hangingIssue ns)) = False"
  by (induction ns) (simp_all add: hangingIssue_no_duplicate)

text \<open>
  C9 (as amended): the warnings of \<open>validateConnections\<close> are exactly one
  \<open>DuplicateConnection\<close> for every key \<open>`${sourceName}->${conn.node}`\<close> that more than one
  edge between existing steps has, with the number of these edges; port kind and
  index play no part. No error is such a message.
\<close>

theorem validateConnections_duplicate_pairs:
  "set (snd (validateConnections ns cs)) =
     {DuplicateConnection k (count_list (validPairKeys ns cs) k) | k.
        1 < count_list (validPairKeys ns cs) k} \<and>
   \<not> list_ex isDuplicateWarning (fst (validateConnections ns cs))"
proof
  let ?keys = "validPairKeys ns cs"
  let ?pairs = "fold bumpPair ?keys []"
  have pairs: "connectionPairs (fold (visitSource ns) cs
                  \<lparr>csErrors = [], connectedNodes = [], connectionPairs = []\<rparr>) = ?pairs"
    by (simp add: pairs_visitSource)
  have dist: "distinct (map fst ?pairs)" by (rule distinct_fold_bumpPair) simp
  have mem: "(k, c) \<in> set ?pairs \<longleftrightarrow> (k \<in> set ?keys \<and> c = count_list ?keys k)" for k c
  proof -
    have "(k, c) \<in> set ?pairs \<longleftrightarrow> map_of ?pairs k = Some c"
      using dist by simp
    also have "\<dots> \<longleftrightarrow> (k \<in> set ?keys \<and> c = count_list ?keys k)"
      by (auto simp: map_of_fold_bumpPair)
    finally show ?thesis .
  qed
  have "set (duplicateWarnings ?pairs) =
          {DuplicateConnection k (count_list ?keys k) | k. 1 < count_list ?keys k}"
  proof -
    have "set (duplicateWarnings ?pairs) =
            {DuplicateConnection k c | k c. (k, c) \<in> set ?pairs \<and> 1 < c}"
      by (auto simp: duplicateWarnings_def image_iff)
    also have "\<dots> = {DuplicateConnection k (count_list ?keys k) | k. 1 < count_list ?keys k}"
      using mem by (auto simp: count_list_0_iff) (metis count_list_0_iff not_less_zero)
    finally show ?thesis .
  qed
  then show "set (snd (validateConnections ns cs)) =
     {DuplicateConnection k (count_list ?keys k) | k. 1 < count_list ?keys k}"
    by (simp add: validateConnections_def Let_def pairs)
next
  show "\<not> list_ex isDuplicateWarning (fst (validateConnections ns cs))"
    by (simp add: validateConnections_def Let_def errors_visitSource concat_no_duplicate)
qed

text \<open>
  C9 (the claim as stated fails): two edges from "A" to "B", one \<open>main\<close> and one
  \<open>ai_tool\<close>, and the warning is given.
\<close>

theorem validateConnections_kind_counterexample:
  "allEdges twoKinds = [(''A'', ''main'', \<lparr>cnode = ''B'', ctype = ''main'', cindex = Some 0\<rparr>),
                        (''A'', ''ai_tool'', \<lparr>cnode = ''B'', ctype = ''ai_tool'', cindex = Some 0\<rparr>)] \<and>
   validateConnections twoSteps twoKinds = ([], [DuplicateConnection ''A->B'' 2])"
  by code_simp

end
